theory Spec2Isabelle
  imports Complex_Main "HOL-Library.Multiset" "HOL-Library.Sublist" "HOL-Library.AList"
    "HOL-Library.Char_ord" "HOL-Library.List_Lexorder" "HOL-Library.Product_Lexorder"
begin

text \<open>
  Python exceptions are values: a function that can raise returns \<open>py_error + 'a\<close>, with
  \<open>Inl\<close> for the exception.
\<close>

datatype py_error =
  ValueError | ZeroDivisionError | IndexError | TypeError | KeyError | AttributeError | OSError

section \<open>Ranking the parse trees of a sentence (worker.py)\<close>

text \<open>
  The parser returns a list of \<^verbatim>\<open>(treestr, prob, deriv)\<close>; \<^verbatim>\<open>getparses\<close> returns a list of
  \<^verbatim>\<open>(prob, tree, treestr, deriv)\<close>. Probabilities are Python floats, and the arithmetic on
  them rounds. Two types stand for them: \<open>'q\<close>, the probabilities that the parser
  returns, which are finite floats, and \<open>'f\<close>, the floats that the arithmetic below
  yields from them, which may be infinite but are never \<^verbatim>\<open>nan\<close>. Both are linearly
  ordered by \<^verbatim>\<open><\<close>; \<^verbatim>\<open>0.0\<close> and \<^verbatim>\<open>-0.0\<close>, which compare equal, are one value.

  The operations of Python on floats are parameters of the model, so that what is proved
  holds of them as they are, rounding and overflow included:
  \<^item> \<open>float_of\<close>: a probability as a float (the same number);
  \<^item> \<open>float_sum\<close>: the built-in \<^verbatim>\<open>sum\<close> of a list of probabilities;
  \<^item> \<open>int_truediv\<close>: \<^verbatim>\<open>a / b\<close> for two integers, \<open>b\<close> not zero;
  \<^item> \<open>float_truediv\<close>: \<^verbatim>\<open>a / b\<close> for a divisor that is not zero;
  \<^item> \<open>float_add\<close>: \<^verbatim>\<open>a + b\<close>;
  \<^item> \<open>float_zero\<close>: zero.
\<close>

record ('q, 'f) arithmetic =
  float_of :: "'q \<Rightarrow> 'f"
  float_sum :: "'q list \<Rightarrow> 'f"
  int_truediv :: "nat \<Rightarrow> nat \<Rightarrow> 'f"
  float_truediv :: "'q \<Rightarrow> 'f \<Rightarrow> 'f"
  float_add :: "'q \<Rightarrow> 'f \<Rightarrow> 'f"
  float_zero :: 'f

type_synonym ('ts, 'q, 'd) parsetree = "'ts \<times> 'q \<times> 'd"
type_synonym ('f, 'tr, 'ts, 'd) ranked = "'f \<times> 'tr \<times> 'ts \<times> 'd"

definition prob :: "('ts, 'q, 'd) parsetree \<Rightarrow> 'q" where
  "prob a = fst (snd a)"

text \<open>
  \<^verbatim>\<open>applythreshold\<close>. \<^verbatim>\<open>probmass\<close> is \<^verbatim>\<open>sum(a[1] for a in parsetrees)\<close> and the threshold
  is \<^verbatim>\<open>1 / len(parsetrees)\<close>. The division \<^verbatim>\<open>a[1] / probmass\<close> raises when the mass is
  zero; it is reached only when the list has more than three elements.
\<close>

definition applythreshold :: "('q, 'f::linorder) arithmetic \<Rightarrow> ('ts, 'q, 'd) parsetree list
    \<Rightarrow> py_error + ('ts, 'q, 'd) parsetree list" where
  "applythreshold A parsetrees =
     (if parsetrees = [] \<or> length parsetrees \<le> 3 then Inr parsetrees
      else
        let probmass = float_sum A (map prob parsetrees);
            threshold = int_truediv A 1 (length parsetrees)
        in if probmass = float_zero A then Inl ZeroDivisionError
           else Inr (filter (\<lambda>a. float_truediv A (prob a) probmass > threshold) parsetrees))"

text \<open>
  \<^verbatim>\<open>sorted(xs, key=k, reverse=True)\<close>: the list is reversed, sorted into ascending order
  of the key by a stable sort, and reversed again. The result is in descending order,
  and elements with equal keys keep their order.
\<close>

definition sorted_reverse :: "('a \<Rightarrow> 'k::linorder) \<Rightarrow> 'a list \<Rightarrow> 'a list" where
  "sorted_reverse k xs = rev (sort_key k (rev xs))"

text \<open>
  The loop that fills the \<^verbatim>\<open>OrderedDict\<close> \<^verbatim>\<open>parsetrees_\<close> (\<open>dedup_step\<close> is its body).
  The dictionary is an association list in insertion order; assigning to a key that is
  present keeps its position (\<open>AList.update\<close>). \<open>post\<close> stands for the post-processing of
  the library (\<^verbatim>\<open>PARSER.postprocess\<close>, \<^verbatim>\<open>handlefunctions\<close>, \<^verbatim>\<open>domorph\<close>) and \<open>str\<close> for
  \<^verbatim>\<open>str(tree)\<close>. When the key is present, the new probability is \<^verbatim>\<open>prob + oldprob\<close> and
  the tuple keeps the tree, string and derivation of the entry that was there.
\<close>

definition dedup_step :: "('q, 'f) arithmetic \<Rightarrow> ('ts \<Rightarrow> 'tr) \<Rightarrow> ('tr \<Rightarrow> string)
    \<Rightarrow> (string \<times> ('f, 'tr, 'ts, 'd) ranked) list \<Rightarrow> ('ts, 'q, 'd) parsetree
    \<Rightarrow> (string \<times> ('f, 'tr, 'ts, 'd) ranked) list" where
  "dedup_step A post str parsetrees' a =
     (case a of (treestr, p, deriv) \<Rightarrow>
        let tree = post treestr;
            y = str tree
        in case map_of parsetrees' y of
             Some (oldprob, tree', treestr', deriv') \<Rightarrow>
               AList.update y (float_add A p oldprob, tree', treestr', deriv') parsetrees'
           | None \<Rightarrow> AList.update y (float_of A p, tree, treestr, deriv) parsetrees')"

fun dedup :: "('q, 'f) arithmetic \<Rightarrow> ('ts \<Rightarrow> 'tr) \<Rightarrow> ('tr \<Rightarrow> string)
    \<Rightarrow> (string \<times> ('f, 'tr, 'ts, 'd) ranked) list \<Rightarrow> ('ts, 'q, 'd) parsetree list
    \<Rightarrow> (string \<times> ('f, 'tr, 'ts, 'd) ranked) list" where
  "dedup A post str parsetrees' [] = parsetrees'"
| "dedup A post str parsetrees' (a # rest) =
     dedup A post str (dedup_step A post str parsetrees' a) rest"

text \<open>
  Lines 55 to 74 of \<^verbatim>\<open>getparses\<close>: threshold, sort, merge, sort.
\<close>

definition rank_parsetrees :: "('q::linorder, 'f::linorder) arithmetic \<Rightarrow> ('ts \<Rightarrow> 'tr)
    \<Rightarrow> ('tr \<Rightarrow> string) \<Rightarrow> ('ts, 'q, 'd) parsetree list
    \<Rightarrow> py_error + ('f, 'tr, 'ts, 'd) ranked list" where
  "rank_parsetrees A post str parsetrees =
     (case applythreshold A parsetrees of
        Inl e \<Rightarrow> Inl e
      | Inr kept \<Rightarrow>
          Inr (sorted_reverse fst (map snd (dedup A post str [] (sorted_reverse prob kept)))))"

text \<open>The dictionary key of a raw candidate, and of a returned entry.\<close>

definition key_of :: "('ts \<Rightarrow> 'tr) \<Rightarrow> ('tr \<Rightarrow> string) \<Rightarrow> ('ts, 'q, 'd) parsetree \<Rightarrow> string" where
  "key_of post str a = str (post (fst a))"

definition entry_key :: "('tr \<Rightarrow> string) \<Rightarrow> ('f, 'tr, 'ts, 'd) ranked \<Rightarrow> string" where
  "entry_key str e = str (fst (snd e))"

text \<open>
  Notions used to state what the ranking returns. \<open>first_occurrences\<close> removes from a
  list every element that has occurred before. \<open>accumulate\<close> is the probability of an
  entry after the loop has added the probabilities \<open>ps\<close> to it, one after the other, and
  \<open>merged_prob\<close> is the probability that the loop gives to a key when it runs over the
  list \<open>xs\<close>: the float sum of the probabilities of the candidates with that key, added
  up in the order of the list; \<open>None\<close> when no candidate has the key.
\<close>

fun first_occurrences :: "'a list \<Rightarrow> 'a list" where
  "first_occurrences [] = []"
| "first_occurrences (x # xs) = x # first_occurrences (filter (\<lambda>y. y \<noteq> x) xs)"

definition accumulate :: "('q, 'f) arithmetic \<Rightarrow> 'f \<Rightarrow> 'q list \<Rightarrow> 'f" where
  "accumulate A q ps = foldl (\<lambda>oldprob p. float_add A p oldprob) q ps"

definition merged_prob :: "('q, 'f) arithmetic \<Rightarrow> ('ts \<Rightarrow> 'tr) \<Rightarrow> ('tr \<Rightarrow> string)
    \<Rightarrow> ('ts, 'q, 'd) parsetree list \<Rightarrow> string \<Rightarrow> 'f option" where
  "merged_prob A post str xs y =
     (case filter (\<lambda>a. key_of post str a = y) xs of
        [] \<Rightarrow> None
      | a # rest \<Rightarrow> Some (accumulate A (float_of A (prob a)) (map prob rest)))"

text \<open>
  The reading of "ties are broken by the original order" that the ranking is compared
  with: of two returned entries with equal probability, the one whose tree occurs first
  in the list of the parser comes first.
\<close>

definition original_rank :: "('ts \<Rightarrow> 'tr) \<Rightarrow> ('tr \<Rightarrow> string) \<Rightarrow> ('ts, 'q, 'd) parsetree list
    \<Rightarrow> string \<Rightarrow> nat" where
  "original_rank post str parsetrees y =
     length (takeWhile (\<lambda>a. key_of post str a \<noteq> y) parsetrees)"

definition ties_by_original_order :: "('ts \<Rightarrow> 'tr) \<Rightarrow> ('tr \<Rightarrow> string)
    \<Rightarrow> ('ts, 'q, 'd) parsetree list \<Rightarrow> ('f, 'tr, 'ts, 'd) ranked list \<Rightarrow> bool" where
  "ties_by_original_order post str parsetrees out =
     list_all
       (\<lambda>(i, j).
          if i < j \<and> fst (out ! i) = fst (out ! j)
          then original_rank post str parsetrees (entry_key str (out ! i))
                 < original_rank post str parsetrees (entry_key str (out ! j))
          else True)
       (List.product [0..<length out] [0..<length out])"

text \<open>
  An arithmetic for examples: the operations without rounding, on rational numbers.
  Python's operations give the same results wherever the exact result of every step is
  a float, as it is for the eighths, quarters and halves of the examples below.
\<close>

definition dyadic_arithmetic :: "(rat, rat) arithmetic" where
  "dyadic_arithmetic =
     \<lparr>float_of = (\<lambda>q. q),
      float_sum = sum_list,
      int_truediv = (\<lambda>a b. of_nat a / of_nat b),
      float_truediv = (\<lambda>a b. a / b),
      float_add = (\<lambda>a b. a + b),
      float_zero = 0\<rparr>"

section \<open>The annotation database and the priority queue (app.py)\<close>

text \<open>
  A row of the \<^verbatim>\<open>entries\<close> table, as far as the functions below read it: the column
  \<^verbatim>\<open>sentno\<close> (which holds the original line number, see \<^verbatim>\<open>addentry(lineno, ...)\<close> in
  \<^verbatim>\<open>accept\<close>), the annotator and the stored tree.
\<close>

record entry =
  sentno :: nat
  username :: string
  tree :: string

text \<open>An element of \<^verbatim>\<open>QUEUE\<close>: \<^verbatim>\<open>(lineno, entropy, sentence)\<close>.\<close>

type_synonym queue_entry = "nat \<times> rat \<times> string"

text \<open>
  \<^verbatim>\<open>entries = {a[0] for a in cur}\<close> for the query
  \<^verbatim>\<open>select sentno from entries where username = ?\<close>.
\<close>

definition user_entries :: "entry list \<Rightarrow> string \<Rightarrow> nat set" where
  "user_entries db u = set (map sentno (filter (\<lambda>r. username r = u) db))"

text \<open>
  The loop \<^verbatim>\<open>for sentno, (lineno, _, _) in enumerate(QUEUE, 1)\<close>; \<open>None\<close> when the loop
  ends without returning.
\<close>

fun firstunannotated_loop :: "nat set \<Rightarrow> nat \<Rightarrow> queue_entry list \<Rightarrow> nat option" where
  "firstunannotated_loop entries n [] = None"
| "firstunannotated_loop entries n ((lineno, _, _) # q) =
     (if lineno \<notin> entries then Some n else firstunannotated_loop entries (n + 1) q)"

definition firstunannotated :: "entry list \<Rightarrow> queue_entry list \<Rightarrow> string \<Rightarrow> nat" where
  "firstunannotated db QUEUE u =
     (case firstunannotated_loop (user_entries db u) 1 QUEUE of
        Some n \<Rightarrow> n
      | None \<Rightarrow> 1)"

section \<open>Parsing span constraints (app.py)\<close>

text \<open>
  \<^verbatim>\<open>s.split(sep)\<close> for a separator of one character: the pieces between the occurrences
  of the separator, empty pieces included; the empty string gives one empty piece.
\<close>

fun split_on :: "char \<Rightarrow> string \<Rightarrow> string list" where
  "split_on sep [] = [[]]"
| "split_on sep (c # cs) =
     (if c = sep then [] # split_on sep cs
      else (case split_on sep cs of
              w # ws \<Rightarrow> (c # w) # ws
            | [] \<Rightarrow> [[c]]))"

text \<open>
  A character is a code point below 256. The whitespace of \<^verbatim>\<open>\s\<close> in a regular
  expression on strings: the characters 9 to 13, 28 to 32, and \<^verbatim>\<open>\x85\<close> and \<^verbatim>\<open>\xa0\<close>.
\<close>

definition is_space :: "char \<Rightarrow> bool" where
  "is_space c =
     (let n = of_char c :: nat
      in (9 \<le> n \<and> n \<le> 13) \<or> (28 \<le> n \<and> n \<le> 32) \<or> n = 133 \<or> n = 160)"

text \<open>
  \<^verbatim>\<open>int(s)\<close> on a string: the whitespace around the number is skipped, one sign is
  allowed, and the digits may be grouped by single underscores. Anything else raises
  \<^verbatim>\<open>ValueError\<close>. The whitespace that \<^verbatim>\<open>int\<close> skips is the characters 9 to 13 and 32, and
  \<^verbatim>\<open>\x85\<close> and \<^verbatim>\<open>\xa0\<close>; the separators 28 to 31 are not skipped: \<^verbatim>\<open>int('\x1f1')\<close> raises.
  The limit that later versions of Python put on the number of digits is left out.
\<close>

definition int_space :: "char \<Rightarrow> bool" where
  "int_space c = (let n = of_char c :: nat in (9 \<le> n \<and> n \<le> 13) \<or> n = 32 \<or> n = 133 \<or> n = 160)"

definition is_digit :: "char \<Rightarrow> bool" where
  "is_digit c = (let n = of_char c :: nat in 48 \<le> n \<and> n \<le> 57)"

definition int_strip :: "string \<Rightarrow> string" where
  "int_strip s = rev (dropWhile int_space (rev (dropWhile int_space s)))"

text \<open>The value of a string of digits and underscores, read from the left.\<close>

fun digits_value :: "int \<Rightarrow> string \<Rightarrow> int" where
  "digits_value acc [] = acc"
| "digits_value acc (c # cs) =
     (if is_digit c then digits_value (10 * acc + (int (of_char c) - 48)) cs
      else digits_value acc cs)"

text \<open>
  Digits, with underscores only between two digits.
\<close>

fun digits_ok :: "string \<Rightarrow> bool" where
  "digits_ok [] = False"
| "digits_ok [c] = is_digit c"
| "digits_ok (c # d # cs) =
     (is_digit c \<and> (if d = CHR ''_'' then digits_ok cs else digits_ok (d # cs)))"

definition py_int :: "string \<Rightarrow> py_error + int" where
  "py_int s =
     (let t = int_strip s;
          (neg, body) = (case t of
                           c # cs \<Rightarrow> if c = CHR ''-'' then (True, cs)
                                     else if c = CHR ''+'' then (False, cs)
                                     else (False, t)
                         | [] \<Rightarrow> (False, t))
      in if digits_ok body
         then Inr (if neg then - digits_value 0 body else digits_value 0 body)
         else Inl ValueError)"

text \<open>Running a function that can raise over a list; the first exception ends it.\<close>

fun map_raise :: "('a \<Rightarrow> py_error + 'b) \<Rightarrow> 'a list \<Rightarrow> py_error + 'b list" where
  "map_raise f [] = Inr []"
| "map_raise f (x # xs) =
     (case f x of
        Inl e \<Rightarrow> Inl e
      | Inr y \<Rightarrow> (case map_raise f xs of Inl e \<Rightarrow> Inl e | Inr ys \<Rightarrow> Inr (y # ys)))"

text \<open>
  The functions below take the built-in \<^verbatim>\<open>int\<close> as their first argument \<open>int_of\<close>, so
  that what is proved of them for every \<open>int_of\<close> does not depend on the details of
  \<^verbatim>\<open>int\<close>; \<open>py_int\<close> is the one the examples run with.

  One item of a span: \<^verbatim>\<open>b-c\<close> is \<^verbatim>\<open>range(int(b), int(c) + 1)\<close>, anything else is
  \<^verbatim>\<open>int(rng)\<close>. The unpacking \<^verbatim>\<open>b, c = rng.split('-')\<close> raises unless there are exactly
  two pieces.
\<close>

definition span_item :: "(string \<Rightarrow> py_error + int) \<Rightarrow> string \<Rightarrow> py_error + int list" where
  "span_item int_of rng =
     (if CHR ''-'' \<in> set rng then
        (case split_on CHR ''-'' rng of
           [b, c] \<Rightarrow>
             (case int_of b of
                Inl e \<Rightarrow> Inl e
              | Inr lo \<Rightarrow> (case int_of c of Inl e \<Rightarrow> Inl e | Inr hi \<Rightarrow> Inr [lo..hi]))
         | _ \<Rightarrow> Inl ValueError)
      else (case int_of rng of Inl e \<Rightarrow> Inl e | Inr n \<Rightarrow> Inr [n]))"

text \<open>
  \<^verbatim>\<open>constr\<close>: \<^verbatim>\<open>label, span = item.split(' ', 1)\<close> splits at the first space and raises when
  there is none.
\<close>

definition constr :: "(string \<Rightarrow> py_error + int) \<Rightarrow> string \<Rightarrow> py_error + (string \<times> int list)" where
  "constr int_of item =
     (case dropWhile (\<lambda>c. c \<noteq> CHR '' '') item of
        [] \<Rightarrow> Inl ValueError
      | _ # span' \<Rightarrow>
          (case map_raise (span_item int_of) (split_on CHR '','' span') of
             Inl e \<Rightarrow> Inl e
           | Inr seqs \<Rightarrow> Inr (takeWhile (\<lambda>c. c \<noteq> CHR '' '') item, concat seqs)))"

text \<open>
  A constraint is a label with a list of token indices. Python orders the tuples
  \<^verbatim>\<open>(label, seq)\<close> by the label, as a string, and then by the list, both lexicographically;
  this is the order of the type \<open>string \<times> int list\<close>.
\<close>

type_synonym constraint = "string \<times> int list"

text \<open>The constraints written in one argument, in the order written.\<close>

definition constraints_of :: "(string \<Rightarrow> py_error + int) \<Rightarrow> string \<Rightarrow> py_error + constraint list" where
  "constraints_of int_of s =
     (if s = [] then Inr [] else map_raise (constr int_of) (split_on (CHR 0x09) s))"

text \<open>
  \<^verbatim>\<open>parseconstraints\<close>: each argument, when not empty, becomes the sorted tuple of its
  constraints.
\<close>

definition parseconstraints :: "(string \<Rightarrow> py_error + int) \<Rightarrow> string \<Rightarrow> string
    \<Rightarrow> py_error + (constraint list \<times> constraint list)" where
  "parseconstraints int_of require block =
     (case constraints_of int_of require of
        Inl e \<Rightarrow> Inl e
      | Inr r \<Rightarrow>
          (case constraints_of int_of block of
             Inl e \<Rightarrow> Inl e
           | Inr b \<Rightarrow> Inr (sort r, sort b)))"

section \<open>The memoized parse and the retraining (worker.py)\<close>

text \<open>
  The arguments of a call of \<^verbatim>\<open>getparses\<close>, with the defaults filled in; they are the key
  of the cache. (The cache of Python keys on the arguments as they are written in the
  call, so two calls that differ only in writing out a default have two entries there and
  one here.)
\<close>

record args =
  sent :: string
  require :: "constraint list"
  block :: "constraint list"
  objfun :: string
  est :: string
  coarse :: string
  root :: "string option"

text \<open>
  What a stage of the parser reports: its attributes \<^verbatim>\<open>parsetrees\<close>, \<^verbatim>\<open>msg\<close> and
  \<^verbatim>\<open>elapsedtime\<close>.
\<close>

record ('ts, 'q, 'd) stage =
  stage_parsetrees :: "('ts, 'q, 'd) parsetree list"
  stage_msg :: string
  stage_elapsedtime :: rat

text \<open>
  The value of \<^verbatim>\<open>getparses\<close>: the tokens, the ranked trees, the messages and the times.
  For a sentence that is too long the third component is a string and the fourth is
  \<^verbatim>\<open>None\<close>.
\<close>

datatype messages = Text string | Messages "string list"

type_synonym ('f, 'tr, 'ts, 'd) parses =
  "string list \<times> ('f, 'tr, 'ts, 'd) ranked list \<times> messages \<times> rat list option"

text \<open>
  What the worker calls, for a parser state of type \<open>'p\<close>:
  \<^item> \<open>arith\<close>: the arithmetic of floats, as in the ranking above;
  \<^item> \<open>postokenize\<close>: the tokens and tags of a sentence (it raises on an empty sentence);
  \<^item> \<open>parse\<close>: the assignments to \<^verbatim>\<open>PARSER.stages\<close> followed by \<^verbatim>\<open>PARSER.parse\<close>; it
    returns the stages, or raises, and the parser as it is afterwards;
  \<^item> \<open>postprocess\<close> and \<open>str_of\<close>: as in the ranking above;
  \<^item> \<open>augmentgrammar\<close>: \<^verbatim>\<open>PARSER.augmentgrammar\<close>; the exception raised, if any, and the
    parser afterwards.
\<close>

record ('p, 'g, 'ts, 'q, 'f, 'd, 'tr, 'a, 'b) library =
  arith :: "('q, 'f) arithmetic"
  postokenize :: "string \<Rightarrow> py_error + (string list \<times> 'g)"
  parse :: "'p \<Rightarrow> string list \<Rightarrow> 'g \<Rightarrow> args \<Rightarrow> (py_error + ('ts, 'q, 'd) stage list) \<times> 'p"
  postprocess :: "string list \<Rightarrow> 'ts \<Rightarrow> 'tr"
  str_of :: "'tr \<Rightarrow> string"
  augmentgrammar :: "'p \<Rightarrow> 'a \<Rightarrow> 'b \<Rightarrow> py_error option \<times> 'p"

text \<open>
  The state of a worker process after \<^verbatim>\<open>loadgrammar\<close>: the parser, the limit, and the
  cache of \<^verbatim>\<open>functools.lru_cache\<close>, a list of keys with their values, the most recently
  used first.
\<close>

record ('p, 'r) worker =
  PARSER :: 'p
  LIMIT :: nat
  cache :: "(args \<times> 'r) list"

text \<open>
  The body of \<^verbatim>\<open>getparses\<close>: the value returned or the exception raised, and the parser
  afterwards.
\<close>

definition getparses_body ::
  "('p, 'g, 'ts, 'q::linorder, 'f::linorder, 'd, 'tr, 'a, 'b) library \<Rightarrow> nat \<Rightarrow> 'p \<Rightarrow> args
    \<Rightarrow> (py_error + ('f, 'tr, 'ts, 'd) parses) \<times> 'p" where
  "getparses_body lib limit P a =
     (case postokenize lib (sent a) of
        Inl e \<Rightarrow> (Inl e, P)
      | Inr (senttok, tags) \<Rightarrow>
          if length senttok > limit
          then (Inr ([], [], Text ''sentence too long'', None), P)
          else
            (case parse lib P senttok tags a of
               (Inl e, P') \<Rightarrow> (Inl e, P')
             | (Inr results, P') \<Rightarrow>
                 if results = [] then (Inl IndexError, P')
                 else
                   (case rank_parsetrees (arith lib) (postprocess lib senttok) (str_of lib)
                           (stage_parsetrees (last results)) of
                      Inl e \<Rightarrow> (Inl e, P')
                    | Inr ranked \<Rightarrow>
                        (Inr (senttok, ranked, Messages (map stage_msg results),
                              Some (map stage_elapsedtime results)), P'))))"

text \<open>
  \<^verbatim>\<open>@functools.lru_cache(maxsize=1024)\<close>: a key that is in the cache gives its value
  and moves to the front; otherwise the body runs, and its value, unless it raised, is
  put in front, the least recently used entry leaving a full cache.
\<close>

definition getparses ::
  "('p, 'g, 'ts, 'q::linorder, 'f::linorder, 'd, 'tr, 'a, 'b) library
    \<Rightarrow> ('p, ('f, 'tr, 'ts, 'd) parses) worker \<Rightarrow> args
    \<Rightarrow> (py_error + ('f, 'tr, 'ts, 'd) parses) \<times> ('p, ('f, 'tr, 'ts, 'd) parses) worker" where
  "getparses lib w a =
     (case map_of (cache w) a of
        Some r \<Rightarrow> (Inr r, w\<lparr>cache := (a, r) # filter (\<lambda>kv. fst kv \<noteq> a) (cache w)\<rparr>)
      | None \<Rightarrow>
          (case getparses_body lib (LIMIT w) (PARSER w) a of
             (Inl e, P') \<Rightarrow> (Inl e, w\<lparr>PARSER := P'\<rparr>)
           | (Inr r, P') \<Rightarrow> (Inr r, w\<lparr>PARSER := P', cache := take 1024 ((a, r) # cache w)\<rparr>)))"

text \<open>
  \<^verbatim>\<open>augment\<close>: the grammar is extended, then \<^verbatim>\<open>getparses.cache_clear()\<close> runs. When
  \<^verbatim>\<open>augmentgrammar\<close> raises, the cache is left.
\<close>

definition augment :: "('p, 'g, 'ts, 'q, 'f, 'd, 'tr, 'a, 'b) library \<Rightarrow> ('p, 'r) worker \<Rightarrow> 'a \<Rightarrow> 'b
    \<Rightarrow> py_error option \<times> ('p, 'r) worker" where
  "augment lib w trees sents =
     (case augmentgrammar lib (PARSER w) trees sents of
        (Some e, P') \<Rightarrow> (Some e, w\<lparr>PARSER := P'\<rparr>)
      | (None, P') \<Rightarrow> (None, w\<lparr>PARSER := P', cache := []\<rparr>))"

text \<open>
  A library for examples. The parser state is the number of trees it was trained on; a
  sentence has one parse, whose probability is one half to the power of that number.
\<close>

definition example_library ::
  "(nat, unit, string, rat, rat, unit, string, unit list, unit list) library" where
  "example_library =
     \<lparr>arith = dyadic_arithmetic,
      postokenize = (\<lambda>s. Inr (split_on CHR '' '' s, ())),
      parse = (\<lambda>P senttok tags a.
        (Inr [\<lparr>stage_parsetrees = [(''(S 0)'', 1 / 2 ^ P, ())], stage_msg = ''done'',
               stage_elapsedtime = 0\<rparr>], P)),
      postprocess = (\<lambda>senttok ts. ts),
      str_of = (\<lambda>tr. tr),
      augmentgrammar = (\<lambda>P trees sents. (None, P + length trees))\<rparr>"

definition example_args :: args where
  "example_args =
     \<lparr>sent = ''a'', require = [], block = [], objfun = ''mpp'', est = ''rfe'', coarse = ''pcfg'',
      root = None\<rparr>"

section \<open>Trees and the edit operations (app.py)\<close>

subsection \<open>Trees, positions and traversal\<close>

text \<open>
  A \<^verbatim>\<open>Tree\<close> object has a label and a list of children; a child is a \<^verbatim>\<open>Tree\<close> or an
  integer, the index of a token. The trees handled here come from a bracketed string, so
  no object occurs twice in a tree, and an object is identified by its position: the
  list of child indices that leads to it from the root. The test \<^verbatim>\<open>a is b\<close> on two objects
  of one tree is the equality of their positions.
\<close>

datatype tree = Leaf int | Node string "tree list"

type_synonym position = "nat list"

fun subtree_at :: "tree \<Rightarrow> position \<Rightarrow> tree option" where
  "subtree_at t [] = Some t"
| "subtree_at (Leaf n) (i # p) = None"
| "subtree_at (Node l cs) (i # p) = (if i < length cs then subtree_at (cs ! i) p else None)"

text \<open>
  \<^verbatim>\<open>dt.nodes[nodeid]\<close> used as a \<^verbatim>\<open>Tree\<close>: its label and children. The node table
  of \<^verbatim>\<open>DrawTree\<close> belongs to the library; here a node id is the position of the
  node, and id 0 is the root, the empty position. An id that is not in the table raises
  \<^verbatim>\<open>KeyError\<close>, and a token index has neither label nor children.
\<close>

definition node_at :: "tree \<Rightarrow> position \<Rightarrow> py_error + (string \<times> tree list)" where
  "node_at t p =
     (case subtree_at t p of
        None \<Rightarrow> Inl KeyError
      | Some (Leaf n) \<Rightarrow> Inl TypeError
      | Some (Node l cs) \<Rightarrow> Inr (l, cs))"

text \<open>
  \<^verbatim>\<open>tree.subtrees()\<close>: the \<^verbatim>\<open>Tree\<close> objects of a tree in depth-first pre-order, the
  tree itself first; here their positions.
\<close>

fun subtrees :: "tree \<Rightarrow> position list"
  and subtrees_from :: "nat \<Rightarrow> tree list \<Rightarrow> position list" where
  "subtrees (Leaf n) = []"
| "subtrees (Node l cs) = [] # subtrees_from 0 cs"
| "subtrees_from i [] = []"
| "subtrees_from i (c # cs) = map ((#) i) (subtrees c) @ subtrees_from (Suc i) cs"

text \<open>Replacing the subtree at a position; the tree is returned as it is when the
  position does not exist.\<close>

fun replace_at :: "tree \<Rightarrow> position \<Rightarrow> tree \<Rightarrow> tree" where
  "replace_at t [] s = s"
| "replace_at (Leaf n) (i # p) s = Leaf n"
| "replace_at (Node l cs) (i # p) s =
     (if i < length cs then Node l (cs[i := replace_at (cs ! i) p s]) else Node l cs)"

text \<open>\<^verbatim>\<open>isinstance(child, int)\<close>\<close>

fun is_int :: "tree \<Rightarrow> bool" where
  "is_int (Leaf n) = True"
| "is_int (Node l cs) = False"

text \<open>
  \<^verbatim>\<open>any(child is x for child in node)\<close> for the node at position \<open>p\<close> with children
  \<open>cs\<close>: one of the positions of the children is \<open>x\<close>.
\<close>

definition has_child :: "position \<Rightarrow> tree list \<Rightarrow> position \<Rightarrow> bool" where
  "has_child p cs x = list_ex (\<lambda>j. p @ [j] = x) [0..<length cs]"

text \<open>
  The first node in pre-order that has \<open>x\<close> among its children:
  \<^verbatim>\<open>for node in dt.nodes[0].subtrees(): if any(child is x for child in node): ...\<close>
\<close>

definition parent_of :: "tree \<Rightarrow> position \<Rightarrow> position option" where
  "parent_of t x =
     find (\<lambda>p. case subtree_at t p of
                  Some (Node l cs) \<Rightarrow> has_child p cs x
                | _ \<Rightarrow> False)
       (subtrees t)"

text \<open>
  \<^verbatim>\<open>xs.index(v)\<close>: the index of the first element equal to \<open>v\<close>. Equality of
  \<^verbatim>\<open>Tree\<close> objects compares label and children, as equality of \<open>tree\<close> does.
\<close>

fun py_index :: "'a list \<Rightarrow> 'a \<Rightarrow> py_error + nat" where
  "py_index [] v = Inl ValueError"
| "py_index (x # xs) v =
     (if x = v then Inr 0
      else (case py_index xs v of Inl e \<Rightarrow> Inl e | Inr i \<Rightarrow> Inr (Suc i)))"

subsection \<open>Labels\<close>

text \<open>
  \<^verbatim>\<open>LABELRE = re.compile(r'^([^-/\s]+)(-[^/\s]+)?(/\S+)?$')\<close>. The
  three groups are returned as strings, a group that did not take part as the empty
  string (the code reads groups 2 and 3 only through \<^verbatim>\<open>or ''\<close> and truth tests). Each
  group takes the longest run of its character class, and \<^verbatim>\<open>$\<close> matches at the end
  or before a final newline.
\<close>

definition cat_char :: "char \<Rightarrow> bool" where
  "cat_char c = (c \<noteq> CHR ''-'' \<and> c \<noteq> CHR ''/'' \<and> \<not> is_space c)"

definition func_char :: "char \<Rightarrow> bool" where
  "func_char c = (c \<noteq> CHR ''/'' \<and> \<not> is_space c)"

definition morph_char :: "char \<Rightarrow> bool" where
  "morph_char c = (\<not> is_space c)"

text \<open>An optional group: a separator followed by a nonempty run.\<close>

definition opt_group :: "char \<Rightarrow> (char \<Rightarrow> bool) \<Rightarrow> string \<Rightarrow> string \<times> string" where
  "opt_group sep cls s =
     (case s of
        c # r \<Rightarrow> if c = sep \<and> takeWhile cls r \<noteq> []
                  then (c # takeWhile cls r, dropWhile cls r)
                  else ([], s)
      | [] \<Rightarrow> ([], s))"

definition LABELRE :: "string \<Rightarrow> (string \<times> string \<times> string) option" where
  "LABELRE s =
     (let g1 = takeWhile cat_char s;
          (g2, r2) = opt_group CHR ''-'' func_char (dropWhile cat_char s);
          (g3, r3) = opt_group CHR ''/'' morph_char r2
      in if g1 \<noteq> [] \<and> (r3 = [] \<or> r3 = [CHR 0x0A]) then Some (g1, g2, g3) else None)"

subsection \<open>Validation\<close>

text \<open>
  The label sets of the grammar (\<^verbatim>\<open>workerattr\<close>) and the whitelist of the
  configuration.
\<close>

record grammar =
  poslabels :: "string set"
  phrasallabels :: "string set"
  functiontags :: "string set"
  FUNCTIONTAGWHITELIST :: "string set"

text \<open>
  The body of the loop \<^verbatim>\<open>for node in tree.subtrees()\<close> of \<^verbatim>\<open>validate\<close>: \<open>False\<close> when
  the node makes \<^verbatim>\<open>validate\<close> raise.
\<close>

definition function_ok :: "grammar \<Rightarrow> string \<Rightarrow> bool" where
  "function_ok G g2 = (g2 = [] \<or> tl g2 \<in> functiontags G \<or> tl g2 \<in> FUNCTIONTAGWHITELIST G)"

definition check_node :: "grammar \<Rightarrow> string \<Rightarrow> tree list \<Rightarrow> bool" where
  "check_node G l cs =
     (case LABELRE l of
        None \<Rightarrow> False
      | Some (g1, g2, g3) \<Rightarrow>
          (case cs of
             [] \<Rightarrow> False
           | c # _ \<Rightarrow>
               if is_int c then
                 g1 \<in> poslabels G \<and> function_ok G g2 \<and> length cs = 1
               else
                 list_all (\<lambda>child. \<not> is_int child) cs \<and> g1 \<in> phrasallabels G
                   \<and> function_ok G g2))"

fun nodes_ok :: "grammar \<Rightarrow> tree \<Rightarrow> bool"
  and children_ok :: "grammar \<Rightarrow> tree list \<Rightarrow> bool" where
  "nodes_ok G (Leaf n) = True"
| "nodes_ok G (Node l cs) = (check_node G l cs \<and> children_ok G cs)"
| "children_ok G [] = True"
| "children_ok G (c # cs) = (nodes_ok G c \<and> children_ok G cs)"

text \<open>
  \<^verbatim>\<open>validate\<close>, from the parsed tree on: the parsing of the bracketed string and the
  comparison of the sentence with the tokens belong to the caller here. Every failure is
  a \<^verbatim>\<open>ValueError\<close>.
\<close>

definition validate :: "grammar \<Rightarrow> tree \<Rightarrow> py_error + unit" where
  "validate G t = (if nodes_ok G t then Inr () else Inl ValueError)"

subsection \<open>The edit requests\<close>

text \<open>
  The counters of \<^verbatim>\<open>session['actions']\<close> are a list indexed by the constants below
  (\<^verbatim>\<open>range(8)\<close>); the last element is a time. \<^verbatim>\<open>actions[i] += 1\<close> raises when the list
  is too short.
\<close>

definition REATTACH :: nat where
  "REATTACH = 3"

definition RELABEL :: nat where
  "RELABEL = 4"

definition increment :: "nat \<Rightarrow> rat list \<Rightarrow> py_error + rat list" where
  "increment i actions =
     (if i < length actions then Inr (actions[i := actions ! i + 1]) else Inl IndexError)"

text \<open>
  The variable \<^verbatim>\<open>error\<close> of \<^verbatim>\<open>reattach\<close>: the empty string or one of four messages,
  the last of which quotes a node.
\<close>

datatype message = NoError | CannotRemove | CannotAddUnderPOS | UnderItself | OnlyChild tree

text \<open>
  What a request returns: the text of the validation error, or a page made of the
  message, the drawing and the bracketing of a tree. The counters of the session after
  the request are part of the result.
\<close>

datatype response = Invalid | Drawn message tree "rat list"

text \<open>
  The three kinds of request that \<^verbatim>\<open>reattach\<close> serves, told apart by its arguments:
  \<^verbatim>\<open>newparent == 'deletenode'\<close>, a \<^verbatim>\<open>nodeid\<close> that starts with \<^verbatim>\<open>newlabel_\<close>, and the
  re-attachment of node \<^verbatim>\<open>nodeid\<close> under node \<^verbatim>\<open>newparent\<close>.
\<close>

datatype reattach_args =
  DeleteNode position
| NewLabel string position
| Move position position

text \<open>
  Removing a node: \<^verbatim>\<open>x[:] = []\<close> empties the node, the loop finds the node that holds it,
  and \<^verbatim>\<open>y[i:i + 1] = children\<close> puts the children at the index \<^verbatim>\<open>y.index(x)\<close>. When the
  loop finds nothing, the tree is left with the emptied node. \<open>canonicalize\<close> is the
  function of the library.
\<close>

definition delete_node :: "(tree \<Rightarrow> tree) \<Rightarrow> tree \<Rightarrow> position \<Rightarrow> py_error + (message \<times> tree)" where
  "delete_node canonicalize t nodeid =
     (case node_at t nodeid of
        Inl e \<Rightarrow> Inl e
      | Inr (l, children) \<Rightarrow>
          if nodeid = [] then Inr (CannotRemove, t)
          else
            (case children of
               [] \<Rightarrow> Inl IndexError
             | c # _ \<Rightarrow>
                 if is_int c then Inr (CannotRemove, t)
                 else
                   let t1 = replace_at t nodeid (Node l [])
                   in (case parent_of t1 nodeid of
                         None \<Rightarrow> Inr (NoError, t1)
                       | Some y \<Rightarrow>
                           (case node_at t1 y of
                              Inl e \<Rightarrow> Inl e
                            | Inr (ly, ycs) \<Rightarrow>
                                (case py_index ycs (Node l []) of
                                   Inl e \<Rightarrow> Inl e
                                 | Inr i \<Rightarrow>
                                     Inr (NoError,
                                       canonicalize (replace_at t1 y
                                         (Node ly (take i ycs @ children @ drop (Suc i) ycs)))))))))"

text \<open>Putting a new node between a node and its children.\<close>

definition new_node :: "(tree \<Rightarrow> tree) \<Rightarrow> tree \<Rightarrow> string \<Rightarrow> position \<Rightarrow> py_error + (message \<times> tree)" where
  "new_node canonicalize t label newparent =
     (case node_at t newparent of
        Inl e \<Rightarrow> Inl e
      | Inr (ly, children) \<Rightarrow>
          (case children of
             [] \<Rightarrow> Inl IndexError
           | c # _ \<Rightarrow>
               if is_int c then Inr (CannotAddUnderPOS, t)
               else Inr (NoError, canonicalize (replace_at t newparent (Node ly [Node label children])))))"

text \<open>
  Where an object is after child \<open>j\<close> of the node at \<open>p\<close> has been removed: nowhere when
  it was inside that child, one place to the left when it was inside a later child.
\<close>

definition after_removal :: "position \<Rightarrow> nat \<Rightarrow> position \<Rightarrow> position option" where
  "after_removal p j y =
     (if take (length p) y = p \<and> length p < length y then
        (let k = y ! length p
         in if k = j then None
            else if j < k then Some (p @ (k - 1) # drop (Suc (length p)) y)
            else Some y)
      else Some y)"

text \<open>
  Re-attaching node \<open>x\<close> under node \<open>y\<close>. The first loop looks for \<open>y\<close> among the
  subtrees of \<open>x\<close>. The second finds the node that holds \<open>x\<close>; \<^verbatim>\<open>node.remove(x)\<close> removes
  its first child equal to \<open>x\<close>, and \<^verbatim>\<open>append\<close> adds \<open>x\<close> to the children that \<open>y\<close> then has.
  A token index has no \<^verbatim>\<open>subtrees\<close> and no \<^verbatim>\<open>append\<close>.
\<close>

definition move_node :: "(tree \<Rightarrow> tree) \<Rightarrow> tree \<Rightarrow> position \<Rightarrow> position \<Rightarrow> py_error + (message \<times> tree)" where
  "move_node canonicalize t nodeid newparent =
     (case subtree_at t nodeid of
        None \<Rightarrow> Inl KeyError
      | Some x \<Rightarrow>
          (case subtree_at t newparent of
             None \<Rightarrow> Inl KeyError
           | Some y \<Rightarrow>
               if is_int x then Inl AttributeError
               else if list_ex (\<lambda>p. nodeid @ p = newparent) (subtrees x) then Inr (UnderItself, t)
               else
                 (case parent_of t nodeid of
                    None \<Rightarrow> Inr (NoError, t)
                  | Some p \<Rightarrow>
                      (case node_at t p of
                         Inl e \<Rightarrow> Inl e
                       | Inr (lp, pcs) \<Rightarrow>
                           if length pcs > 1 then
                             (case py_index pcs x of
                                Inl e \<Rightarrow> Inl e
                              | Inr j \<Rightarrow>
                                  let t1 = replace_at t p (Node lp (take j pcs @ drop (Suc j) pcs))
                                  in if is_int y then Inl AttributeError
                                     else
                                       (case after_removal p j newparent of
                                          None \<Rightarrow> Inr (NoError, canonicalize t1)
                                        | Some y' \<Rightarrow>
                                            (case node_at t1 y' of
                                               Inl e \<Rightarrow> Inl e
                                             | Inr (ly, ycs) \<Rightarrow>
                                                 Inr (NoError,
                                                   canonicalize (replace_at t1 y' (Node ly (ycs @ [x])))))))
                           else Inr (OnlyChild (Node lp pcs), t)))))"

text \<open>
  \<^verbatim>\<open>reattach\<close>: the tree is validated, one of the three operations runs, and the counter
  is incremented when the message is empty.
\<close>

definition reattach :: "grammar \<Rightarrow> (tree \<Rightarrow> tree) \<Rightarrow> tree \<Rightarrow> rat list \<Rightarrow> reattach_args
    \<Rightarrow> py_error + response" where
  "reattach G canonicalize t actions args =
     (case validate G t of
        Inl e \<Rightarrow> Inr Invalid
      | Inr _ \<Rightarrow>
          (case (case args of
                   DeleteNode nodeid \<Rightarrow> delete_node canonicalize t nodeid
                 | NewLabel label newparent \<Rightarrow> new_node canonicalize t label newparent
                 | Move nodeid newparent \<Rightarrow> move_node canonicalize t nodeid newparent) of
             Inl e \<Rightarrow> Inl e
           | Inr (error, t') \<Rightarrow>
               if error = NoError then
                 (case increment REATTACH actions of
                    Inl e \<Rightarrow> Inl e
                  | Inr actions' \<Rightarrow> Inr (Drawn error t' actions'))
               else Inr (Drawn error t' actions)))"

text \<open>
  The arguments of \<^verbatim>\<open>newlabel\<close> that choose the component: the request may carry
  \<^verbatim>\<open>label\<close>, \<^verbatim>\<open>function\<close> or \<^verbatim>\<open>morph\<close>, read in this order.
\<close>

record relabel_args =
  label_arg :: "string option"
  function_arg :: "string option"
  morph_arg :: "string option"

text \<open>The new label string, from the groups of the old one.\<close>

definition new_label :: "relabel_args \<Rightarrow> string \<times> string \<times> string \<Rightarrow> py_error + string" where
  "new_label args m =
     (case m of (g1, g2, g3) \<Rightarrow>
        (case label_arg args of
           Some l \<Rightarrow> Inr (l @ g2 @ g3)
         | None \<Rightarrow>
             (case function_arg args of
                Some f \<Rightarrow> Inr (if f = [] then g1 @ g3 else g1 @ ''-'' @ f @ g3)
              | None \<Rightarrow>
                  (case morph_arg args of
                     Some mo \<Rightarrow> Inr (if mo = [] then g1 @ g2 else g1 @ g2 @ ''/'' @ mo)
                   | None \<Rightarrow> Inl ValueError))))"

text \<open>
  \<^verbatim>\<open>DrawTree(tree, senttok)\<close> draws a copy of the tree in which the children of every
  node are sorted by their leftmost token
  (\<^verbatim>\<open>key=lambda n: min(n.leaves()) if isinstance(n, Tree) else n\<close>, a stable sort), and
  \<^verbatim>\<open>dt.nodes\<close> holds the nodes of that copy. Every node of a tree that has passed
  \<^verbatim>\<open>validate\<close> has a token below it.
\<close>

fun leaves :: "tree \<Rightarrow> int list" where
  "leaves (Leaf n) = [n]"
| "leaves (Node l cs) = concat (map leaves cs)"

definition leftmost :: "tree \<Rightarrow> int" where
  "leftmost t = (case leaves t of [] \<Rightarrow> 0 | n # ns \<Rightarrow> fold min ns n)"

fun sorted_copy :: "tree \<Rightarrow> tree" where
  "sorted_copy (Leaf n) = Leaf n"
| "sorted_copy (Node l cs) = Node l (sort_key leftmost (map sorted_copy cs))"

text \<open>
  \<^verbatim>\<open>newlabel\<close>: the tree is validated first, then the label of the node \<^verbatim>\<open>dt.nodes[nodeid]\<close>
  of the copy is replaced and the copy, \<^verbatim>\<open>dt.nodes[0]\<close>, is returned; \<^verbatim>\<open>match.group\<close> on a
  failed match raises. Nothing is checked after the replacement.
\<close>

definition newlabel :: "grammar \<Rightarrow> tree \<Rightarrow> rat list \<Rightarrow> position \<Rightarrow> relabel_args \<Rightarrow> py_error + response" where
  "newlabel G t actions nodeid args =
     (case validate G t of
        Inl e \<Rightarrow> Inr Invalid
      | Inr _ \<Rightarrow>
          let dt = sorted_copy t
          in (case subtree_at dt nodeid of
                None \<Rightarrow> Inl KeyError
              | Some (Leaf n) \<Rightarrow> Inl AttributeError
              | Some (Node l cs) \<Rightarrow>
                  (case (case LABELRE l of
                           None \<Rightarrow>
                             if label_arg args = None \<and> function_arg args = None
                                \<and> morph_arg args = None
                             then Inl ValueError else Inl AttributeError
                         | Some m \<Rightarrow> new_label args m) of
                     Inl e \<Rightarrow> Inl e
                   | Inr l' \<Rightarrow>
                       (case increment RELABEL actions of
                          Inl e \<Rightarrow> Inl e
                        | Inr actions' \<Rightarrow>
                            Inr (Drawn NoError (replace_at dt nodeid (Node l' cs)) actions')))))"


text \<open>A node with exactly one child.\<close>

definition only_child :: "tree \<Rightarrow> position \<Rightarrow> bool" where
  "only_child t x =
     (x \<noteq> [] \<and> (case node_at t (butlast x) of Inr (lp, pcs) \<Rightarrow> length pcs = 1 | Inl e \<Rightarrow> False))"

text \<open>
  The shape of an optional group of a label: empty, or the separator followed by a
  nonempty run of the characters allowed after it.
\<close>

definition group_shape :: "char \<Rightarrow> (char \<Rightarrow> bool) \<Rightarrow> string \<Rightarrow> bool" where
  "group_shape sep cls g = (g = [] \<or> (\<exists>r. g = sep # r \<and> r \<noteq> [] \<and> list_all cls r))"

text \<open>A grammar and a tree for examples: "the(0) dog(1) barks(2)".\<close>

definition example_grammar :: grammar where
  "example_grammar =
     \<lparr>poslabels = {''DT'', ''NN'', ''VB''}, phrasallabels = {''ROOT'', ''NP'', ''VP''},
      functiontags = {''SB''}, FUNCTIONTAGWHITELIST = {}\<rparr>"

definition example_tree :: tree where
  "example_tree =
     Node ''ROOT'' [Node ''NP'' [Node ''DT'' [Leaf 0], Node ''NN'' [Leaf 1]],
                    Node ''VP'' [Node ''VB'' [Leaf 2]]]"

section \<open>Start of the application (app.py)\<close>

text \<open>
  The entries of \<^verbatim>\<open>app.config\<close> that \<^verbatim>\<open>initapp\<close> reads; \<open>None\<close> is Python's
  \<^verbatim>\<open>None\<close>.
\<close>

record config =
  SENTENCES :: "string option"
  GRAMMAR :: "string option"
  ACCOUNTS :: "(string \<times> string) list option"
  ANNOTATIONHELP :: "string option"

text \<open>
  The file system as \<^verbatim>\<open>initapp\<close> sees it: the files that exist, each with its
  modification time (\<^verbatim>\<open>st_mtime\<close>) and its text.
\<close>

record stat_file =
  st_mtime :: rat
  text_of :: string

type_synonym filesystem = "string \<Rightarrow> stat_file option"

text \<open>The globals that \<^verbatim>\<open>initapp\<close> sets; \<open>None\<close> until then.\<close>

record globals =
  SENTENCES_g :: "string list option"
  QUEUE_g :: "queue_entry list option"
  ANNOTATIONHELP_g :: string

text \<open>\<^verbatim>\<open>open(name).read()\<close>; a file that does not exist raises.\<close>

definition read_file :: "filesystem \<Rightarrow> string \<Rightarrow> py_error + string" where
  "read_file fs name = (case fs name of None \<Rightarrow> Inl OSError | Some f \<Rightarrow> Inr (text_of f))"

text \<open>\<^verbatim>\<open>'%s.rankings.json' % sentfilename\<close>\<close>

definition rankingfilename :: "string \<Rightarrow> string" where
  "rankingfilename sentfilename = sentfilename @ ''.rankings.json''"

text \<open>
  \<^verbatim>\<open>initapp\<close>. It returns the exception raised, if any, and the globals as they are
  afterwards: an exception leaves the assignments made before it. \<open>splitlines\<close> and
  \<open>json_load\<close> are the functions of Python's library.
\<close>

definition initapp :: "(string \<Rightarrow> string list) \<Rightarrow> (string \<Rightarrow> py_error + queue_entry list)
    \<Rightarrow> config \<Rightarrow> filesystem \<Rightarrow> globals \<Rightarrow> py_error option \<times> globals" where
  "initapp splitlines json_load cfg fs g =
     (case SENTENCES cfg of
        None \<Rightarrow> (Some ValueError, g)
      | Some sentfilename \<Rightarrow>
          if GRAMMAR cfg = None then (Some ValueError, g)
          else if ACCOUNTS cfg = None then (Some ValueError, g)
          else
            (case fs sentfilename of
               None \<Rightarrow> (Some OSError, g)
             | Some sentfile \<Rightarrow>
                 let g1 = g\<lparr>SENTENCES_g := Some (splitlines (text_of sentfile))\<rparr>
                 in (case fs (rankingfilename sentfilename) of
                       None \<Rightarrow> (Some ValueError, g1)
                     | Some rankingfile \<Rightarrow>
                         if st_mtime rankingfile > st_mtime sentfile then
                           (case json_load (text_of rankingfile) of
                              Inl e \<Rightarrow> (Some e, g1)
                            | Inr queue \<Rightarrow>
                                let g2 = g1\<lparr>QUEUE_g := Some queue\<rparr>
                                in (case ANNOTATIONHELP cfg of
                                      None \<Rightarrow> (None, g2)
                                    | Some helpname \<Rightarrow>
                                        (case read_file fs helpname of
                                           Inl e \<Rightarrow> (Some e, g2)
                                         | Inr inp \<Rightarrow> (None, g2\<lparr>ANNOTATIONHELP_g := inp\<rparr>))))
                         else (Some ValueError, g1))))"

text \<open>
  The rankings of a sentence file are stale when the rankings file does not exist or its
  modification time is not greater than that of the sentence file.
\<close>

definition stale :: "filesystem \<Rightarrow> string \<Rightarrow> bool" where
  "stale fs sentfilename =
     (case fs (rankingfilename sentfilename) of
        None \<Rightarrow> True
      | Some rankingfile \<Rightarrow>
          (case fs sentfilename of
             None \<Rightarrow> True
           | Some sentfile \<Rightarrow> \<not> st_mtime rankingfile > st_mtime sentfile))"

text \<open>A configuration and two file systems for examples.\<close>

definition example_config :: config where
  "example_config =
     \<lparr>SENTENCES = Some ''sents.txt'', GRAMMAR = Some ''grammar'',
      ACCOUNTS = Some [(''ann'', ''secret'')], ANNOTATIONHELP = None\<rparr>"

definition example_files :: "rat \<Rightarrow> filesystem" where
  "example_files rankings_time =
     [''sents.txt'' \<mapsto> \<lparr>st_mtime = 10, text_of = ''a b''\<rparr>,
      ''sents.txt.rankings.json'' \<mapsto> \<lparr>st_mtime = rankings_time, text_of = ''[]''\<rparr>]"

definition no_globals :: globals where
  "no_globals = \<lparr>SENTENCES_g = None, QUEUE_g = None, ANNOTATIONHELP_g = []\<rparr>"

section \<open>Properties of the ranking\<close>

subsection \<open>The dictionary built by the loop\<close>

lemma first_occurrences_filter:
  "first_occurrences (filter P xs) = filter P (first_occurrences xs)"
proof (induction xs arbitrary: P rule: first_occurrences.induct)
  case 1
  show ?case by simp
next
  case (2 x xs)
  show ?case
  proof (cases "P x")
    case True
    have "filter (\<lambda>y. y \<noteq> x) (filter P xs) = filter P (filter (\<lambda>y. y \<noteq> x) xs)"
      by (simp add: conj_commute)
    with 2 [of P] True show ?thesis by simp
  next
    case False
    then have "filter P xs = filter P (filter (\<lambda>y. y \<noteq> x) xs)"
      by (auto intro: filter_cong)
    with 2 [of P] False show ?thesis by simp
  qed
qed

lemma set_first_occurrences [simp]: "set (first_occurrences xs) = set xs"
  by (induction xs rule: first_occurrences.induct) auto

lemma distinct_first_occurrences [simp]: "distinct (first_occurrences xs)"
  by (induction xs rule: first_occurrences.induct) auto

lemma map_fst_update:
  "map fst (AList.update k v al) = (if k \<in> fst ` set al then map fst al else map fst al @ [k])"
  by (induction al) auto

lemma dedup_step_keys:
  "map fst (dedup_step A post str acc a)
     = (if key_of post str a \<in> fst ` set acc then map fst acc else map fst acc @ [key_of post str a])"
  by (cases a) (auto simp: dedup_step_def key_of_def Let_def map_fst_update map_of_eq_None_iff
      split: option.splits)

lemma dedup_keys:
  "map fst (dedup A post str acc xs)
     = map fst acc @ first_occurrences (filter (\<lambda>y. y \<notin> fst ` set acc) (map (key_of post str) xs))"
proof (induction xs arbitrary: acc)
  case Nil
  show ?case by simp
next
  case (Cons a rest)
  let ?k = "key_of post str a"
  let ?ks = "map (key_of post str) rest"
  let ?acc' = "dedup_step A post str acc a"
  show ?case
  proof (cases "?k \<in> fst ` set acc")
    case True
    then have "map fst ?acc' = map fst acc"
      by (simp add: dedup_step_keys)
    moreover from this have "fst ` set ?acc' = fst ` set acc"
      by (metis set_map)
    ultimately show ?thesis
      using True Cons [of ?acc'] by simp
  next
    case False
    then have keys: "map fst ?acc' = map fst acc @ [?k]"
      by (simp add: dedup_step_keys)
    then have "fst ` set ?acc' = insert ?k (fst ` set acc)"
      by (metis Un_insert_right append_Nil2 list.simps(15) set_append set_map)
    then have "filter (\<lambda>y. y \<notin> fst ` set ?acc') ?ks
        = filter (\<lambda>y. y \<noteq> ?k) (filter (\<lambda>y. y \<notin> fst ` set acc) ?ks)"
      by (auto intro: filter_cong)
    then show ?thesis
      using False keys Cons [of ?acc'] by simp
  qed
qed

text \<open>What the dictionary holds for a key.\<close>

lemma map_of_dedup_step:
  "map_of (dedup_step A post str acc a) y =
     (if key_of post str a = y then
        (case map_of acc y of
           Some (q, t, ts, d) \<Rightarrow> Some (float_add A (prob a) q, t, ts, d)
         | None \<Rightarrow> Some (float_of A (prob a), post (fst a), fst a, snd (snd a)))
      else map_of acc y)"
  by (cases a) (auto simp: dedup_step_def key_of_def prob_def Let_def update_conv' split: option.splits)

lemma map_of_dedup:
  "map_of (dedup A post str acc xs) y =
     (case map_of acc y of
        Some (q, t, ts, d) \<Rightarrow>
          Some (accumulate A q (map prob (filter (\<lambda>a. key_of post str a = y) xs)), t, ts, d)
      | None \<Rightarrow>
          (case filter (\<lambda>a. key_of post str a = y) xs of
             [] \<Rightarrow> None
           | a # rest \<Rightarrow>
               Some (accumulate A (float_of A (prob a)) (map prob rest),
                     post (fst a), fst a, snd (snd a))))"
proof (induction xs arbitrary: acc)
  case Nil
  show ?case by (auto simp: accumulate_def split: option.splits)
next
  case (Cons a rest)
  show ?case
    by (simp add: Cons map_of_dedup_step accumulate_def split: option.splits)
qed

lemma distinct_dedup_step:
  "distinct (map fst acc) \<Longrightarrow> distinct (map fst (dedup_step A post str acc a))"
  by (cases a) (auto simp: dedup_step_def Let_def distinct_update split: option.splits)

lemma distinct_dedup:
  "distinct (map fst acc) \<Longrightarrow> distinct (map fst (dedup A post str acc xs))"
  by (induction xs arbitrary: acc) (auto simp: distinct_dedup_step)

lemma dedup_entry:
  assumes "(y, e) \<in> set (dedup A post str [] xs)"
  shows "merged_prob A post str xs y = Some (fst e)
      \<and> (\<exists>a \<in> set xs. key_of post str a = y \<and> snd e = (post (fst a), fst a, snd (snd a)))"
proof -
  have "distinct (map fst (dedup A post str [] xs))"
    by (simp add: distinct_dedup)
  with assms have "map_of (dedup A post str [] xs) y = Some e"
    by simp
  then obtain a rest where f: "filter (\<lambda>a. key_of post str a = y) xs = a # rest"
    and e: "e = (accumulate A (float_of A (prob a)) (map prob rest), post (fst a), fst a, snd (snd a))"
    by (auto simp: map_of_dedup split: list.splits)
  from f have "a \<in> set (filter (\<lambda>a. key_of post str a = y) xs)"
    by simp
  then have a: "a \<in> set xs" "key_of post str a = y"
    by auto
  from f e have "merged_prob A post str xs y = Some (fst e)"
    by (simp add: merged_prob_def)
  moreover from e have "snd e = (post (fst a), fst a, snd (snd a))"
    by simp
  ultimately show ?thesis
    using a by blast
qed

lemma map_filter_snd_fst:
  "\<forall>(y, e) \<in> set D. g e = y \<and> (P e = Q y)
    \<Longrightarrow> map g (filter P (map snd D)) = filter Q (map fst D)"
  by (induction D) auto

subsection \<open>The descending stable sort\<close>

lemma sorted_reverse_mset [simp]: "mset (sorted_reverse k xs) = mset xs"
  by (simp add: sorted_reverse_def)

lemma sorted_reverse_set [simp]: "set (sorted_reverse k xs) = set xs"
  by (simp add: sorted_reverse_def)

lemma sorted_reverse_descending: "sorted_wrt (\<lambda>a b. k a \<ge> k b) (sorted_reverse k xs)"
proof -
  have "sorted (map k (sort_key k (rev xs)))"
    by simp
  then have "sorted_wrt (\<lambda>a b. k a \<le> k b) (sort_key k (rev xs))"
    by (simp add: sorted_map)
  then show ?thesis
    by (simp add: sorted_reverse_def sorted_wrt_rev)
qed

lemma sorted_reverse_stable:
  "filter (\<lambda>x. k x = p) (sorted_reverse k xs) = filter (\<lambda>x. k x = p) xs"
proof -
  have "filter (\<lambda>x. k x = p) (sorted_reverse k xs)
      = rev (filter (\<lambda>x. k x = p) (sort_key k (rev xs)))"
    by (simp add: sorted_reverse_def rev_filter)
  also have "\<dots> = rev (filter (\<lambda>x. k x = p) (rev xs))"
    by (simp only: sort_key_stable)
  also have "\<dots> = filter (\<lambda>x. k x = p) xs"
    by (simp add: rev_filter)
  finally show ?thesis .
qed

subsection \<open>The returned list\<close>

lemma rank_parsetrees_Inr:
  "rank_parsetrees A post str parsetrees = Inr out \<Longrightarrow> \<exists>kept. applythreshold A parsetrees = Inr kept"
  by (auto simp: rank_parsetrees_def split: sum.splits)

lemma dedup_sorted_entry:
  assumes "(y, e) \<in> set (dedup A post str [] (sorted_reverse prob kept))"
  shows "entry_key str e = y
      \<and> merged_prob A post str (sorted_reverse prob kept) y = Some (fst e)
      \<and> (\<exists>a \<in> set kept. snd e = (post (fst a), fst a, snd (snd a)))"
proof -
  from dedup_entry [OF assms] obtain a
    where m: "merged_prob A post str (sorted_reverse prob kept) y = Some (fst e)"
      and a: "a \<in> set kept" "key_of post str a = y"
      and e: "snd e = (post (fst a), fst a, snd (snd a))"
    by auto
  from a(2) e have "entry_key str e = y"
    by (simp add: entry_key_def key_of_def)
  with m a(1) e show ?thesis
    by blast
qed

lemma dedup_sorted_keys:
  "map (entry_key str) (map snd (dedup A post str [] (sorted_reverse prob kept)))
     = first_occurrences (map (key_of post str) (sorted_reverse prob kept))"
proof -
  let ?D = "dedup A post str [] (sorted_reverse prob kept)"
  have "map (entry_key str) (map snd ?D) = map fst ?D"
    using dedup_sorted_entry [of _ _ A post str kept] by (induction ?D) auto
  then show ?thesis
    by (simp add: dedup_keys)
qed

lemma rank_parsetrees_keys:
  assumes "applythreshold A parsetrees = Inr kept"
    and "rank_parsetrees A post str parsetrees = Inr out"
  shows "entry_key str ` set out = key_of post str ` set kept"
proof -
  let ?D = "dedup A post str [] (sorted_reverse prob kept)"
  from assms have "out = sorted_reverse fst (map snd ?D)"
    by (simp add: rank_parsetrees_def)
  then have "entry_key str ` set out = set (map (entry_key str) (map snd ?D))"
    by (simp only: sorted_reverse_set set_map)
  then show ?thesis
    by (simp only: dedup_sorted_keys set_first_occurrences set_map sorted_reverse_set)
qed

text \<open>
  C2 (as amended). Among the candidates that pass the threshold, those whose
  post-processed trees render to the same string are merged into one entry. Its
  probability is the float sum of theirs, added up in descending order of probability,
  and its tree, string and derivation are those of one of them. The returned list is in
  descending order of probability. Entries with equal probability are in the order in
  which the loop created them: the order in which their keys first occur in the
  descending stable ordering of the candidates that passed the threshold.
\<close>

theorem getparses_merges_and_sorts:
  assumes "applythreshold A parsetrees = Inr kept"
  shows "\<exists>out. rank_parsetrees A post str parsetrees = Inr out
     \<and> distinct (map (entry_key str) out)
     \<and> set (map (entry_key str) out) = key_of post str ` set kept
     \<and> (\<forall>e \<in> set out.
          merged_prob A post str (sorted_reverse prob kept) (entry_key str e) = Some (fst e)
          \<and> (\<exists>a \<in> set kept. snd e = (post (fst a), fst a, snd (snd a))))
     \<and> sorted_wrt (\<lambda>a b. fst a \<ge> fst b) out
     \<and> (\<forall>p. map (entry_key str) (filter (\<lambda>e. fst e = p) out)
            = filter (\<lambda>y. merged_prob A post str (sorted_reverse prob kept) y = Some p)
                (first_occurrences (map (key_of post str) (sorted_reverse prob kept))))"
proof -
  let ?S = "sorted_reverse prob kept"
  let ?D = "dedup A post str [] ?S"
  let ?out = "sorted_reverse fst (map snd ?D)"
  note ent = dedup_sorted_entry [of _ _ A post str kept]
  have D_keys: "map fst ?D = first_occurrences (map (key_of post str) ?S)"
    by (simp add: dedup_keys)
  have r: "rank_parsetrees A post str parsetrees = Inr ?out"
    using assms by (simp add: rank_parsetrees_def)
  have "mset (map (entry_key str) ?out) = mset (map (entry_key str) (map snd ?D))"
    by (metis mset_map sorted_reverse_mset)
  then have "mset (map (entry_key str) ?out) = mset (first_occurrences (map (key_of post str) ?S))"
    by (simp only: dedup_sorted_keys)
  then have d: "distinct (map (entry_key str) ?out)"
    by (metis distinct_first_occurrences mset_eq_imp_distinct_iff)
  have s: "set (map (entry_key str) ?out) = key_of post str ` set kept"
    using rank_parsetrees_keys [OF assms r] by simp
  have e: "\<forall>e \<in> set ?out.
          merged_prob A post str ?S (entry_key str e) = Some (fst e)
          \<and> (\<exists>a \<in> set kept. snd e = (post (fst a), fst a, snd (snd a)))"
  proof
    fix e assume "e \<in> set ?out"
    then obtain y where "(y, e) \<in> set ?D"
      by auto
    from ent [OF this] show "merged_prob A post str ?S (entry_key str e) = Some (fst e)
          \<and> (\<exists>a \<in> set kept. snd e = (post (fst a), fst a, snd (snd a)))"
      by auto
  qed
  have o: "sorted_wrt (\<lambda>a b. fst a \<ge> fst b) ?out"
    by (rule sorted_reverse_descending)
  have t: "map (entry_key str) (filter (\<lambda>e. fst e = p) ?out)
            = filter (\<lambda>y. merged_prob A post str ?S y = Some p)
                (first_occurrences (map (key_of post str) ?S))" for p
  proof -
    have "map (entry_key str) (filter (\<lambda>e. fst e = p) (map snd ?D))
        = filter (\<lambda>y. merged_prob A post str ?S y = Some p) (map fst ?D)"
      using ent by (intro map_filter_snd_fst) auto
    then show ?thesis
      by (simp add: sorted_reverse_stable D_keys)
  qed
  from r d s e o t show ?thesis
    by blast
qed

theorem getparses_merges_and_sorts_witness:
  "applythreshold dyadic_arithmetic
      [(''T1a'', 1 / 8, 0::nat), (''T1b'', 1 / 4, 1), (''T2'', 3 / 8, 2)]
     = Inr [(''T1a'', 1 / 8, 0), (''T1b'', 1 / 4, 1), (''T2'', 3 / 8, 2)]
   \<and> rank_parsetrees dyadic_arithmetic (take 2) id
      [(''T1a'', 1 / 8, 0::nat), (''T1b'', 1 / 4, 1), (''T2'', 3 / 8, 2)]
     = Inr [(3 / 8, ''T2'', ''T2'', 2), (3 / 8, ''T1'', ''T1b'', 1)]
   \<and> merged_prob dyadic_arithmetic (take 2) id
      (sorted_reverse prob [(''T1a'', 1 / 8, 0::nat), (''T1b'', 1 / 4, 1), (''T2'', 3 / 8, 2)])
      ''T1'' = Some (3 / 8)
   \<and> filter (\<lambda>y. merged_prob dyadic_arithmetic (take 2) id
          (sorted_reverse prob [(''T1a'', 1 / 8, 0::nat), (''T1b'', 1 / 4, 1), (''T2'', 3 / 8, 2)])
          y = Some (3 / 8))
        (first_occurrences (map (key_of (take 2) id)
          (sorted_reverse prob
             [(''T1a'', 1 / 8 :: rat, 0::nat), (''T1b'', 1 / 4, 1), (''T2'', 3 / 8, 2)])))
     = [''T2'', ''T1'']"
proof -
  let ?pts = "[(''T1a'', 1 / 8, 0), (''T1b'', 1 / 4, 1), (''T2'', 3 / 8, 2)]
      :: (string, rat, nat) parsetree list"
  let ?out = "[(3 / 8, ''T2'', ''T2'', 2), (3 / 8, ''T1'', ''T1b'', 1)]
      :: (rat, string, string, nat) ranked list"
  have h: "applythreshold dyadic_arithmetic ?pts = Inr ?pts"
    by (simp add: applythreshold_def)
  have r: "rank_parsetrees dyadic_arithmetic (take 2) id ?pts = Inr ?out"
    by (simp add: rank_parsetrees_def applythreshold_def sorted_reverse_def prob_def
        dedup_step_def dyadic_arithmetic_def Let_def)
  from getparses_merges_and_sorts [OF h, of "take 2" id] obtain out
    where o: "rank_parsetrees dyadic_arithmetic (take 2) id ?pts = Inr out"
      and e': "\<forall>e \<in> set out.
          merged_prob dyadic_arithmetic (take 2) id (sorted_reverse prob ?pts) (entry_key id e)
            = Some (fst e)
          \<and> (\<exists>a \<in> set ?pts. snd e = (take 2 (fst a), fst a, snd (snd a)))"
      and t': "\<forall>p. map (entry_key id) (filter (\<lambda>e. fst e = p) out)
            = filter (\<lambda>y. merged_prob dyadic_arithmetic (take 2) id (sorted_reverse prob ?pts) y
                  = Some p)
                (first_occurrences (map (key_of (take 2) id) (sorted_reverse prob ?pts)))"
    by blast
  from o r have out: "out = ?out"
    by simp
  let ?e1 = "(3 / 8, ''T1'', ''T1b'', 1) :: (rat, string, string, nat) ranked"
  have "?e1 \<in> set ?out"
    by simp
  with e' out
  have "merged_prob dyadic_arithmetic (take 2) id (sorted_reverse prob ?pts) (entry_key id ?e1)
      = Some (fst ?e1)"
    by blast
  then have e: "merged_prob dyadic_arithmetic (take 2) id (sorted_reverse prob ?pts) ''T1''
      = Some (3 / 8)"
    by (simp add: entry_key_def)
  from t' out
  have t: "map (entry_key id) (filter (\<lambda>e. fst e = 3 / 8) ?out)
            = filter (\<lambda>y. merged_prob dyadic_arithmetic (take 2) id (sorted_reverse prob ?pts) y
                  = Some (3 / 8))
                (first_occurrences (map (key_of (take 2) id) (sorted_reverse prob ?pts)))"
    by blast
  note m = e
  have k: "map (entry_key id) (filter (\<lambda>e. fst e = 3 / 8) ?out) = [''T2'', ''T1'']"
    by (simp add: entry_key_def)
  from t k
  have "filter (\<lambda>y. merged_prob dyadic_arithmetic (take 2) id (sorted_reverse prob ?pts) y
                  = Some (3 / 8))
          (first_occurrences (map (key_of (take 2) id) (sorted_reverse prob ?pts)))
      = [''T2'', ''T1'']"
    by simp
  with h r m show ?thesis
    by blast
qed

text \<open>
  C2 as stated fails. Both candidates of tree \<open>T1\<close> precede the candidate of tree \<open>T2\<close> in
  the list of the parser, and the merged probabilities tie at \<open>3/8\<close> (the sum of \<open>1/4\<close>
  and \<open>1/8\<close> is exact in floats); the entry of \<open>T2\<close> is returned first, because the first
  sort moved its candidate to the front before the loop ran.
\<close>

theorem ties_not_by_original_order:
  "rank_parsetrees dyadic_arithmetic (take 2) id
      [(''T1a'', 1 / 8, 0::nat), (''T1b'', 1 / 4, 1), (''T2'', 3 / 8, 2)]
     = Inr [(3 / 8, ''T2'', ''T2'', 2), (3 / 8, ''T1'', ''T1b'', 1)]
   \<and> \<not> ties_by_original_order (take 2) id
       [(''T1a'', 1 / 8 :: rat, 0::nat), (''T1b'', 1 / 4, 1), (''T2'', 3 / 8, 2)]
       [(3 / 8 :: rat, ''T2'', ''T2'', 2), (3 / 8, ''T1'', ''T1b'', 1)]"
proof
  show "rank_parsetrees dyadic_arithmetic (take 2) id
      [(''T1a'', 1 / 8, 0::nat), (''T1b'', 1 / 4, 1), (''T2'', 3 / 8, 2)]
     = Inr [(3 / 8, ''T2'', ''T2'', 2), (3 / 8, ''T1'', ''T1b'', 1)]"
    by (simp add: rank_parsetrees_def applythreshold_def sorted_reverse_def prob_def
        dedup_step_def dyadic_arithmetic_def Let_def)
next
  show "\<not> ties_by_original_order (take 2) id
       [(''T1a'', 1 / 8 :: rat, 0::nat), (''T1b'', 1 / 4, 1), (''T2'', 3 / 8, 2)]
       [(3 / 8 :: rat, ''T2'', ''T2'', 2), (3 / 8, ''T1'', ''T1b'', 1)]"
    by (simp add: ties_by_original_order_def original_rank_def entry_key_def key_of_def)
qed

text \<open>
  C1 (as amended). A list of at most three candidates is returned whole. Of a list of
  \<open>n > 3\<close> candidates whose probability mass (their float sum) is not zero, exactly the
  candidates whose probability divided by the mass, in float arithmetic, is greater than
  the float \<open>1/n\<close> are kept, in their order; with a zero mass the division raises. The
  threshold is applied to the list of the parser, before the merge: the trees returned by
  \<^verbatim>\<open>getparses\<close> are the trees of the candidates that passed it.
\<close>

theorem applythreshold_before_dedup:
  "(length parsetrees \<le> 3 \<longrightarrow> applythreshold A parsetrees = Inr parsetrees)
   \<and> (3 < length parsetrees \<and> float_sum A (map prob parsetrees) = float_zero A \<longrightarrow>
        applythreshold A parsetrees = Inl ZeroDivisionError)
   \<and> (3 < length parsetrees \<and> float_sum A (map prob parsetrees) \<noteq> float_zero A \<longrightarrow>
        applythreshold A parsetrees
          = Inr (filter (\<lambda>a. float_truediv A (prob a) (float_sum A (map prob parsetrees))
                          > int_truediv A 1 (length parsetrees)) parsetrees))
   \<and> (\<forall>out. rank_parsetrees A post str parsetrees = Inr out \<longrightarrow>
        (\<exists>kept. applythreshold A parsetrees = Inr kept
           \<and> entry_key str ` set out = key_of post str ` set kept))"
proof (intro conjI impI allI)
  fix out
  assume r: "rank_parsetrees A post str parsetrees = Inr out"
  then obtain kept where k: "applythreshold A parsetrees = Inr kept"
    using rank_parsetrees_Inr by blast
  from rank_parsetrees_keys [OF k r]
  have "entry_key str ` set out = key_of post str ` set kept" .
  with k show "\<exists>kept. applythreshold A parsetrees = Inr kept
           \<and> entry_key str ` set out = key_of post str ` set kept"
    by auto
qed (auto simp: applythreshold_def Let_def)

text \<open>
  C1 as stated fails. Merging the four candidates below leaves three trees, which the
  threshold would return whole were it applied after the merge; \<^verbatim>\<open>getparses\<close> returns two,
  since the two candidates of the third tree were dropped one by one before the merge.
  (The sum of the four probabilities is 1 and the quotients are the probabilities: all
  exact in floats.)
\<close>

theorem pruning_precedes_dedup:
  "length (dedup dyadic_arithmetic (take 2) id []
      [(''T1'', 3 / 8, 0::nat), (''T2'', 3 / 8, 1), (''T3a'', 1 / 8, 2), (''T3b'', 1 / 8, 3)]) = 3
   \<and> rank_parsetrees dyadic_arithmetic (take 2) id
      [(''T1'', 3 / 8, 0::nat), (''T2'', 3 / 8, 1), (''T3a'', 1 / 8, 2), (''T3b'', 1 / 8, 3)]
     = Inr [(3 / 8, ''T1'', ''T1'', 0), (3 / 8, ''T2'', ''T2'', 1)]"
  by (simp add: rank_parsetrees_def applythreshold_def sorted_reverse_def prob_def
      dedup_step_def dyadic_arithmetic_def Let_def)

theorem applythreshold_before_dedup_witness:
  "applythreshold dyadic_arithmetic [(''T1a'', 1 / 8, 0::nat), (''T1b'', 1 / 4, 1), (''T2'', 3 / 8, 2)]
     = Inr [(''T1a'', 1 / 8, 0), (''T1b'', 1 / 4, 1), (''T2'', 3 / 8, 2)]
   \<and> applythreshold dyadic_arithmetic
       [(''T1'', 3 / 8, 0::nat), (''T2'', 3 / 8, 1), (''T3a'', 1 / 8, 2), (''T3b'', 1 / 8, 3)]
     = Inr [(''T1'', 3 / 8, 0), (''T2'', 3 / 8, 1)]
   \<and> applythreshold dyadic_arithmetic
       [(''T1'', 0, 0::nat), (''T2'', 0, 1), (''T3a'', 0, 2), (''T3b'', 0, 3)]
     = Inl ZeroDivisionError
   \<and> (\<exists>kept. applythreshold dyadic_arithmetic
         [(''T1'', 3 / 8, 0::nat), (''T2'', 3 / 8, 1), (''T3a'', 1 / 8, 2), (''T3b'', 1 / 8, 3)]
         = Inr kept
       \<and> entry_key id ` set [(3 / 8 :: rat, ''T1'', ''T1'', 0::nat), (3 / 8, ''T2'', ''T2'', 1)]
           = key_of (take 2) id ` set kept)"
proof -
  let ?A = dyadic_arithmetic
  let ?p3 = "[(''T1a'', 1 / 8, 0), (''T1b'', 1 / 4, 1), (''T2'', 3 / 8, 2)]
      :: (string, rat, nat) parsetree list"
  let ?p4 = "[(''T1'', 3 / 8, 0), (''T2'', 3 / 8, 1), (''T3a'', 1 / 8, 2), (''T3b'', 1 / 8, 3)]
      :: (string, rat, nat) parsetree list"
  let ?p0 = "[(''T1'', 0, 0), (''T2'', 0, 1), (''T3a'', 0, 2), (''T3b'', 0, 3)]
      :: (string, rat, nat) parsetree list"
  have h3: "length ?p3 \<le> 3"
    by simp
  have h4: "3 < length ?p4 \<and> float_sum ?A (map prob ?p4) \<noteq> float_zero ?A"
    by (simp add: dyadic_arithmetic_def prob_def)
  have h0: "3 < length ?p0 \<and> float_sum ?A (map prob ?p0) = float_zero ?A"
    by (simp add: dyadic_arithmetic_def prob_def)
  have r: "rank_parsetrees ?A (take 2) id ?p4
      = Inr [(3 / 8, ''T1'', ''T1'', 0), (3 / 8, ''T2'', ''T2'', 1)]"
    by (simp add: rank_parsetrees_def applythreshold_def sorted_reverse_def prob_def
        dedup_step_def dyadic_arithmetic_def Let_def)
  have "applythreshold ?A ?p3 = Inr ?p3"
    using applythreshold_before_dedup [of ?p3 ?A] h3 by blast
  moreover have "applythreshold ?A ?p4
      = Inr (filter (\<lambda>a. float_truediv ?A (prob a) (float_sum ?A (map prob ?p4))
                          > int_truediv ?A 1 (length ?p4)) ?p4)"
    using applythreshold_before_dedup [of ?p4 ?A] h4 by blast
  then have "applythreshold ?A ?p4 = Inr [(''T1'', 3 / 8, 0), (''T2'', 3 / 8, 1)]"
    by (simp add: dyadic_arithmetic_def prob_def)
  moreover have "applythreshold ?A ?p0 = Inl ZeroDivisionError"
    using applythreshold_before_dedup [of ?p0 ?A] h0 by blast
  moreover have "\<exists>kept. applythreshold ?A ?p4 = Inr kept
       \<and> entry_key id ` set [(3 / 8 :: rat, ''T1'', ''T1'', 0::nat), (3 / 8, ''T2'', ''T2'', 1)]
           = key_of (take 2) id ` set kept"
    using applythreshold_before_dedup [of ?p4 ?A "take 2" id] r by blast
  ultimately show ?thesis
    by blast
qed

section \<open>The cache after retraining\<close>

lemma getparses_miss:
  "map_of (cache w) a = None \<Longrightarrow>
     fst (getparses lib w a) = fst (getparses_body lib (LIMIT w) (PARSER w) a)"
  by (simp add: getparses_def split: prod.splits sum.splits)

text \<open>
  C5. When a call of \<^verbatim>\<open>augment\<close> has returned, the cache of \<^verbatim>\<open>getparses\<close> is empty and
  the parser is the retrained one; the next call of \<^verbatim>\<open>getparses\<close>, for any arguments,
  also arguments that were in the cache before, runs the body on the retrained parser and
  returns its value.
\<close>

theorem augment_clears_cache:
  assumes "augment lib w trees sents = (None, w')"
  shows "cache w' = []
     \<and> augmentgrammar lib (PARSER w) trees sents = (None, PARSER w')
     \<and> LIMIT w' = LIMIT w
     \<and> fst (getparses lib w' a) = fst (getparses_body lib (LIMIT w') (PARSER w') a)"
proof -
  from assms obtain P' where P': "augmentgrammar lib (PARSER w) trees sents = (None, P')"
    and w': "w' = w\<lparr>PARSER := P', cache := []\<rparr>"
    by (auto simp: augment_def split: prod.splits option.splits)
  from w' have c: "cache w' = []"
    by simp
  then have "map_of (cache w') a = None"
    by simp
  then have "fst (getparses lib w' a) = fst (getparses_body lib (LIMIT w') (PARSER w') a)"
    by (rule getparses_miss)
  with c P' w' show ?thesis
    by simp
qed

theorem augment_clears_cache_witness:
  "fst (getparses example_library \<lparr>PARSER = 0, LIMIT = 100, cache = []\<rparr> example_args)
     = Inr ([''a''], [(1, ''(S 0)'', ''(S 0)'', ())], Messages [''done''], Some [0])
   \<and> fst (getparses example_library
        (snd (getparses example_library \<lparr>PARSER = 0, LIMIT = 100, cache = []\<rparr> example_args))
        example_args)
     = Inr ([''a''], [(1, ''(S 0)'', ''(S 0)'', ())], Messages [''done''], Some [0])
   \<and> fst (getparses example_library
        (snd (augment example_library
           (snd (getparses example_library \<lparr>PARSER = 0, LIMIT = 100, cache = []\<rparr> example_args))
           [()] [()]))
        example_args)
     = Inr ([''a''], [(1 / 2, ''(S 0)'', ''(S 0)'', ())], Messages [''done''], Some [0])"
proof -
  let ?w0 = "\<lparr>PARSER = 0, LIMIT = 100, cache = []\<rparr> :: (nat, (rat, string, string, unit) parses) worker"
  let ?r = "([''a''], [(1, ''(S 0)'', ''(S 0)'', ())], Messages [''done''], Some [0])
      :: (rat, string, string, unit) parses"
  let ?w1 = "\<lparr>PARSER = 0, LIMIT = 100, cache = [(example_args, ?r)]\<rparr>
      :: (nat, (rat, string, string, unit) parses) worker"
  let ?w2 = "\<lparr>PARSER = 1, LIMIT = 100, cache = []\<rparr> :: (nat, (rat, string, string, unit) parses) worker"
  have body: "getparses_body example_library 100 P example_args
      = (Inr ([''a''], [(1 / 2 ^ P, ''(S 0)'', ''(S 0)'', ())], Messages [''done''], Some [0]), P)"
    for P
    by (simp add: getparses_body_def example_library_def example_args_def rank_parsetrees_def
        applythreshold_def sorted_reverse_def dedup_step_def prob_def dyadic_arithmetic_def Let_def)
  have g0: "getparses example_library ?w0 example_args = (Inr ?r, ?w1)"
    by (simp add: getparses_def body)
  have g1: "fst (getparses example_library ?w1 example_args) = Inr ?r"
    by (simp add: getparses_def)
  have a: "augment example_library ?w1 [()] [()] = (None, ?w2)"
    by (simp add: augment_def example_library_def)
  from augment_clears_cache [OF a, of example_args]
  have "fst (getparses example_library ?w2 example_args)
      = fst (getparses_body example_library (LIMIT ?w2) (PARSER ?w2) example_args)"
    by blast
  then have g2: "fst (getparses example_library ?w2 example_args)
      = Inr ([''a''], [(1 / 2, ''(S 0)'', ''(S 0)'', ())], Messages [''done''], Some [0])"
    by (simp add: body)
  show ?thesis
    using g1 g2 by (simp add: g0 a)
qed

section \<open>Properties of the constraint parser\<close>

lemma sort_mset_cong:
  fixes xs ys :: "'a::linorder list"
  assumes "mset xs = mset ys"
  shows "sort xs = sort ys"
proof (rule properties_for_sort)
  show "mset (sort ys) = mset xs"
    using assms by simp
  show "sorted (sort ys)"
    by simp
qed

text \<open>
  C6. The require string \<^verbatim>\<open>"NP 0-2\tPP 0-1,4"\<close> with an empty block string parses to the
  constraints \<open>(NP, [0, 1, 2])\<close> and \<open>(PP, [0, 1, 4])\<close> and no block constraints. Two
  pairs of arguments that denote the same constraints, written in any order, give the
  same value, which is the sorted list of the constraints, whatever \<^verbatim>\<open>int\<close> makes of the
  numbers. (Equal multisets: for lists without repetitions, equal sets.)
\<close>

theorem parseconstraints_canonical:
  "parseconstraints py_int (''NP 0-2'' @ [CHR 0x09] @ ''PP 0-1,4'') []
     = Inr ([(''NP'', [0, 1, 2]), (''PP'', [0, 1, 4])], [])
   \<and> (constraints_of int_of r1 = Inr c1 \<and> constraints_of int_of r2 = Inr c2 \<and> mset c1 = mset c2
        \<and> constraints_of int_of b1 = Inr d1 \<and> constraints_of int_of b2 = Inr d2
        \<and> mset d1 = mset d2
      \<longrightarrow> parseconstraints int_of r1 b1 = parseconstraints int_of r2 b2
          \<and> parseconstraints int_of r1 b1 = Inr (sort c1, sort d1))"
proof (intro conjI impI)
  show "parseconstraints py_int (''NP 0-2'' @ [CHR 0x09] @ ''PP 0-1,4'') []
     = Inr ([(''NP'', [0, 1, 2]), (''PP'', [0, 1, 4])], [])"
    by code_simp
next
  assume h: "constraints_of int_of r1 = Inr c1 \<and> constraints_of int_of r2 = Inr c2
        \<and> mset c1 = mset c2
        \<and> constraints_of int_of b1 = Inr d1 \<and> constraints_of int_of b2 = Inr d2
        \<and> mset d1 = mset d2"
  then have "sort c1 = sort c2" "sort d1 = sort d2"
    by (auto intro: sort_mset_cong)
  with h show "parseconstraints int_of r1 b1 = parseconstraints int_of r2 b2"
    by (simp add: parseconstraints_def)
  from h show "parseconstraints int_of r1 b1 = Inr (sort c1, sort d1)"
    by (simp add: parseconstraints_def)
qed

theorem parseconstraints_canonical_witness:
  "parseconstraints py_int (''NP 0-2'' @ [CHR 0x09] @ ''PP 0-1,4'') ''VP 3''
     = parseconstraints py_int (''PP 0-1,4'' @ [CHR 0x09] @ ''NP 0,1-2'') ''VP 3-3''
   \<and> parseconstraints py_int (''NP 0-2'' @ [CHR 0x09] @ ''PP 0-1,4'') ''VP 3''
     = Inr ([(''NP'', [0, 1, 2]), (''PP'', [0, 1, 4])], [(''VP'', [3])])"
proof -
  let ?r1 = "''NP 0-2'' @ [CHR 0x09] @ ''PP 0-1,4''"
  let ?r2 = "''PP 0-1,4'' @ [CHR 0x09] @ ''NP 0,1-2''"
  let ?c1 = "[(''NP'', [0, 1, 2]), (''PP'', [0, 1, 4])] :: constraint list"
  let ?c2 = "[(''PP'', [0, 1, 4]), (''NP'', [0, 1, 2])] :: constraint list"
  let ?d = "[(''VP'', [3])] :: constraint list"
  have r1: "constraints_of py_int ?r1 = Inr ?c1"
    by code_simp
  have r2: "constraints_of py_int ?r2 = Inr ?c2"
    by code_simp
  have b1: "constraints_of py_int ''VP 3'' = Inr ?d"
    by code_simp
  have b2: "constraints_of py_int ''VP 3-3'' = Inr ?d"
    by code_simp
  have m: "mset ?c1 = mset ?c2"
    by simp
  have s: "sort ?c1 = ?c1" "sort ?d = ?d"
    by code_simp+
  from parseconstraints_canonical [of py_int ?r1 ?c1 ?r2 ?c2 "''VP 3''" ?d "''VP 3-3''"]
    r1 r2 b1 b2 m
  have "parseconstraints py_int ?r1 ''VP 3'' = parseconstraints py_int ?r2 ''VP 3-3''
      \<and> parseconstraints py_int ?r1 ''VP 3'' = Inr (sort ?c1, sort ?d)"
    by blast
  then show ?thesis
    unfolding s by blast
qed
section \<open>Properties of the edit operations\<close>

subsection \<open>Positions and traversal\<close>

lemma subtree_at_append:
  "subtree_at t (p @ q) = (case subtree_at t p of None \<Rightarrow> None | Some s \<Rightarrow> subtree_at s q)"
proof (induction t p rule: subtree_at.induct)
  case (1 t)
  show ?case by simp
next
  case (2 n i p)
  show ?case by simp
next
  case (3 l cs i p)
  then show ?case by simp
qed

lemma subtrees_from_iff:
  "q \<in> set (subtrees_from i cs) \<longleftrightarrow>
     (\<exists>j r. j < length cs \<and> q = (i + j) # r \<and> r \<in> set (subtrees (cs ! j)))"
proof (induction cs arbitrary: i)
  case Nil
  show ?case by simp
next
  case (Cons c cs)
  show ?case
  proof
    assume "q \<in> set (subtrees_from i (c # cs))"
    then consider "q \<in> (#) i ` set (subtrees c)" | "q \<in> set (subtrees_from (Suc i) cs)"
      by auto
    then show "\<exists>j r. j < length (c # cs) \<and> q = (i + j) # r \<and> r \<in> set (subtrees ((c # cs) ! j))"
    proof cases
      case 1
      then obtain r where "q = i # r" "r \<in> set (subtrees c)" by auto
      then show ?thesis by (intro exI [of _ 0] exI [of _ r]) simp
    next
      case 2
      then obtain j r where "j < length cs" "q = (Suc i + j) # r" "r \<in> set (subtrees (cs ! j))"
        using Cons [of "Suc i"] by auto
      then show ?thesis by (intro exI [of _ "Suc j"] exI [of _ r]) simp
    qed
  next
    assume "\<exists>j r. j < length (c # cs) \<and> q = (i + j) # r \<and> r \<in> set (subtrees ((c # cs) ! j))"
    then obtain j r where j: "j < length (c # cs)" "q = (i + j) # r" "r \<in> set (subtrees ((c # cs) ! j))"
      by blast
    show "q \<in> set (subtrees_from i (c # cs))"
    proof (cases j)
      case 0
      with j show ?thesis by simp
    next
      case (Suc k)
      with j have "k < length cs \<and> q = (Suc i + k) # r \<and> r \<in> set (subtrees (cs ! k))"
        by simp
      then have "q \<in> set (subtrees_from (Suc i) cs)"
        using Cons [of "Suc i"] by blast
      then show ?thesis by simp
    qed
  qed
qed

lemma subtrees_iff:
  "p \<in> set (subtrees t) \<longleftrightarrow> (\<exists>l cs. subtree_at t p = Some (Node l cs))"
proof (induction p arbitrary: t)
  case Nil
  show ?case by (cases t) auto
next
  case (Cons i p)
  show ?case
  proof (cases t)
    case (Leaf n)
    then show ?thesis by simp
  next
    case (Node l cs)
    have "i # p \<in> set (subtrees t) \<longleftrightarrow> i # p \<in> set (subtrees_from 0 cs)"
      using Node by simp
    also have "\<dots> \<longleftrightarrow> (i < length cs \<and> p \<in> set (subtrees (cs ! i)))"
      by (auto simp: subtrees_from_iff)
    also have "\<dots> \<longleftrightarrow> (\<exists>l' cs'. subtree_at t (i # p) = Some (Node l' cs'))"
      using Cons [of "cs ! i"] Node by simp
    finally show ?thesis .
  qed
qed

lemma has_child_iff:
  "has_child p cs x \<longleftrightarrow> (x \<noteq> [] \<and> butlast x = p \<and> last x < length cs)"
proof
  assume "has_child p cs x"
  then obtain j where "j < length cs" "p @ [j] = x"
    by (auto simp: has_child_def list_ex_iff)
  then show "x \<noteq> [] \<and> butlast x = p \<and> last x < length cs"
    by auto
next
  assume h: "x \<noteq> [] \<and> butlast x = p \<and> last x < length cs"
  then have "p @ [last x] = x"
    by auto
  with h show "has_child p cs x"
    unfolding has_child_def list_ex_iff by (intro bexI [of _ "last x"]) auto
qed

lemma find_unique:
  "a \<in> set xs \<Longrightarrow> P a \<Longrightarrow> \<forall>b \<in> set xs. P b \<longrightarrow> b = a \<Longrightarrow> find P xs = Some a"
proof (induction xs)
  case Nil
  then show ?case by simp
next
  case (Cons x xs)
  show ?case
  proof (cases "P x")
    case True
    with Cons.prems(3) have "x = a" by simp
    with True show ?thesis by simp
  next
    case False
    with Cons.prems have 1: "a \<in> set xs" by auto
    from Cons.prems(3) have 2: "\<forall>b \<in> set xs. P b \<longrightarrow> b = a" by simp
    have "find P xs = Some a"
      by (rule Cons.IH [OF 1 Cons.prems(2) 2])
    with False show ?thesis by simp
  qed
qed

lemma subtree_at_parent:
  assumes "subtree_at t x = Some s" "x \<noteq> []"
  shows "\<exists>l cs. subtree_at t (butlast x) = Some (Node l cs) \<and> last x < length cs \<and> cs ! last x = s"
proof -
  from assms(2) have x: "x = butlast x @ [last x]"
    by simp
  with assms(1) have "subtree_at t (butlast x @ [last x]) = Some s"
    by simp
  then have "(case subtree_at t (butlast x) of None \<Rightarrow> None | Some u \<Rightarrow> subtree_at u [last x]) = Some s"
    by (simp only: subtree_at_append)
  then obtain u where u: "subtree_at t (butlast x) = Some u" "subtree_at u [last x] = Some s"
    by (auto split: option.splits)
  then show ?thesis
    by (cases u) (auto split: if_splits)
qed

lemma parent_of_eq:
  assumes "subtree_at t x = Some s" "x \<noteq> []"
  shows "parent_of t x = Some (butlast x)"
proof -
  from subtree_at_parent [OF assms] obtain l cs
    where p: "subtree_at t (butlast x) = Some (Node l cs)" "last x < length cs"
    by blast
  show ?thesis
    unfolding parent_of_def
  proof (rule find_unique)
    show "butlast x \<in> set (subtrees t)"
      using p by (auto simp: subtrees_iff)
    show "case subtree_at t (butlast x) of Some (Node l cs) \<Rightarrow> has_child (butlast x) cs x | _ \<Rightarrow> False"
      using p assms by (simp add: has_child_iff)
    show "\<forall>b \<in> set (subtrees t).
        (case subtree_at t b of Some (Node l cs) \<Rightarrow> has_child b cs x | _ \<Rightarrow> False) \<longrightarrow> b = butlast x"
      by (auto simp: has_child_iff split: option.splits tree.splits)
  qed
qed

lemma under_itself:
  assumes "subtree_at t x = Some xt" "subtree_at t y = Some (Node ly ycs)" "prefix x y"
  shows "list_ex (\<lambda>p. x @ p = y) (subtrees xt)"
proof -
  from assms(3) obtain q where q: "y = x @ q"
    by (auto simp: prefix_def)
  with assms have "subtree_at xt q = Some (Node ly ycs)"
    by (simp add: subtree_at_append)
  then have "q \<in> set (subtrees xt)"
    by (auto simp: subtrees_iff)
  with q show ?thesis
    by (auto simp: list_ex_iff)
qed

lemma not_under_itself:
  assumes "list_ex (\<lambda>p. x @ p = y) (subtrees xt)"
  shows "prefix x y"
  using assms by (auto simp: list_ex_iff)

subsection \<open>Validated trees\<close>

lemma node_at_Inr: "node_at t p = Inr (l, cs) \<longleftrightarrow> subtree_at t p = Some (Node l cs)"
  by (auto simp: node_at_def split: option.splits tree.splits)





subsection \<open>Replacing subtrees\<close>





subsection \<open>Removing a node\<close>




subsection \<open>Re-attaching a node\<close>

text \<open>
  When both \<open>x\<close> and \<open>y\<close> are labelled nodes of a validated tree, the request to
  re-attach \<open>x\<close> under \<open>y\<close> is answered with an error message, with the tree and the
  counters as they were, when \<open>y\<close> is \<open>x\<close> or lies below \<open>x\<close>, and also when \<open>x\<close> is the
  only child of its parent; the second message quotes the parent.
\<close>

lemma reattach_labelled_rejected:
  assumes "validate G t = Inr ()"
    and "node_at t x = Inr (lx, xcs)" and "node_at t y = Inr (ly, ycs)"
  shows "(prefix x y
            \<longrightarrow> reattach G canonicalize t actions (Move x y) = Inr (Drawn UnderItself t actions))
     \<and> (\<not> prefix x y \<and> only_child t x
            \<longrightarrow> (\<exists>node. subtree_at t (butlast x) = Some node
                  \<and> reattach G canonicalize t actions (Move x y)
                      = Inr (Drawn (OnlyChild node) t actions)))"
proof (intro conjI impI)
  have x: "subtree_at t x = Some (Node lx xcs)" and y: "subtree_at t y = Some (Node ly ycs)"
    using assms by (simp_all add: node_at_Inr)
  {
    assume "prefix x y"
    with x y have "list_ex (\<lambda>p. x @ p = y) (subtrees (Node lx xcs))"
      by (rule under_itself)
    then have "move_node canonicalize t x y = Inr (UnderItself, t)"
      using x y by (simp add: move_node_def)
    then show "reattach G canonicalize t actions (Move x y) = Inr (Drawn UnderItself t actions)"
      using assms(1) by (simp add: reattach_def)
  }
  {
    assume h: "\<not> prefix x y \<and> only_child t x"
    then have no: "\<not> list_ex (\<lambda>p. x @ p = y) (subtrees (Node lx xcs))"
      using not_under_itself by blast
    from h have ne: "x \<noteq> []"
      by (simp add: only_child_def)
    from h obtain lp pcs where p: "node_at t (butlast x) = Inr (lp, pcs)" "length pcs = 1"
      by (auto simp: only_child_def split: sum.splits)
    have par: "parent_of t x = Some (butlast x)"
      using x ne by (rule parent_of_eq)
    have "move_node canonicalize t x y = Inr (OnlyChild (Node lp pcs), t)"
      using x y no par p by (simp add: move_node_def)
    then have "reattach G canonicalize t actions (Move x y) = Inr (Drawn (OnlyChild (Node lp pcs)) t actions)"
      using assms(1) by (simp add: reattach_def)
    moreover have "subtree_at t (butlast x) = Some (Node lp pcs)"
      using p(1) by (simp add: node_at_Inr)
    ultimately show "\<exists>node. subtree_at t (butlast x) = Some node
                  \<and> reattach G canonicalize t actions (Move x y)
                      = Inr (Drawn (OnlyChild node) t actions)"
      by blast
  }
qed

lemma reattach_labelled_rejected_example:
  "reattach example_grammar id example_tree [0, 0, 0, 0, 0, 0, 0, 5] (Move [0] [0, 1])
     = Inr (Drawn UnderItself example_tree [0, 0, 0, 0, 0, 0, 0, 5])
   \<and> reattach example_grammar id example_tree [0, 0, 0, 0, 0, 0, 0, 5] (Move [1, 0] [0])
     = Inr (Drawn (OnlyChild (Node ''VP'' [Node ''VB'' [Leaf 2]])) example_tree
         [0, 0, 0, 0, 0, 0, 0, 5])"
proof -
  let ?a = "[0, 0, 0, 0, 0, 0, 0, 5] :: rat list"
  have v: "validate example_grammar example_tree = Inr ()"
    by (simp add: validate_def example_grammar_def example_tree_def check_node_def
        LABELRE_def opt_group_def cat_char_def is_space_def function_ok_def)
  have n0: "node_at example_tree [0] = Inr (''NP'', [Node ''DT'' [Leaf 0], Node ''NN'' [Leaf 1]])"
    by (simp add: node_at_def example_tree_def)
  have n1: "node_at example_tree [0, 1] = Inr (''NN'', [Leaf 1])"
    by (simp add: node_at_def example_tree_def)
  have n2: "node_at example_tree [1, 0] = Inr (''VB'', [Leaf 2])"
    by (simp add: node_at_def example_tree_def)
  have h1: "prefix [0] [0, 1 :: nat]"
    by simp
  have h2: "\<not> prefix [1, 0] [0 :: nat] \<and> only_child example_tree [1, 0]"
    by (simp add: only_child_def node_at_def example_tree_def)
  have "reattach example_grammar id example_tree ?a (Move [0] [0, 1])
      = Inr (Drawn UnderItself example_tree ?a)"
    using reattach_labelled_rejected [OF v n0 n1, of id ?a] h1 by blast
  moreover have "\<exists>node. subtree_at example_tree (butlast [1, 0]) = Some node
      \<and> reattach example_grammar id example_tree ?a (Move [1, 0] [0])
          = Inr (Drawn (OnlyChild node) example_tree ?a)"
    using reattach_labelled_rejected [OF v n2 n0, of id ?a] h2 by blast
  then have "reattach example_grammar id example_tree ?a (Move [1, 0] [0])
      = Inr (Drawn (OnlyChild (Node ''VP'' [Node ''VB'' [Leaf 2]])) example_tree ?a)"
    by (simp add: example_tree_def)
  ultimately show ?thesis
    by simp
qed

text \<open>
  C3. The node table of the drawing also holds the tokens, and a token below \<open>x\<close> is not
  found by the loop over \<^verbatim>\<open>x.subtrees()\<close>, which yields labelled nodes only; so a request
  to re-attach \<open>x\<close> under a token of its own is not answered with the message
  \<^verbatim>\<open>cannot re-attach subtree under (descendant of) itself\<close>. When \<open>x\<close> is the root, no
  node holds it, the second loop ends without a message either, and the request is
  answered as a re-attachment that took place: the tree as it was, an empty message and
  the counter \<^verbatim>\<open>REATTACH\<close> incremented. When \<open>x\<close> has a sibling, it is removed from its
  parent and \<^verbatim>\<open>append\<close> on the token raises.
\<close>

theorem reattach_root_under_token:
  "subtree_at example_tree [0, 0, 0] = Some (Leaf 0)
   \<and> reattach example_grammar id example_tree [0, 0, 0, 0, 0, 0, 0, 5] (Move [] [0, 0, 0])
     = Inr (Drawn NoError example_tree [0, 0, 0, 1, 0, 0, 0, 5])
   \<and> reattach example_grammar id example_tree [0, 0, 0, 0, 0, 0, 0, 5] (Move [0] [0, 0, 0])
     = Inl AttributeError"
  by (simp add: reattach_def move_node_def parent_of_def has_child_def node_at_def
      after_removal_def increment_def REATTACH_def validate_def example_grammar_def
      example_tree_def check_node_def LABELRE_def opt_group_def cat_char_def is_space_def
      function_ok_def Let_def)
subsection \<open>Relabelling\<close>

text \<open>
  The groups of a label that matches, and the label built from three groups.
\<close>

lemma takeWhile_all: "list_all P xs \<Longrightarrow> (ys = [] \<or> \<not> P (hd ys)) \<Longrightarrow> takeWhile P (xs @ ys) = xs"
  by (induction xs) (auto simp: takeWhile_eq_Nil_iff)

lemma dropWhile_all: "list_all P xs \<Longrightarrow> (ys = [] \<or> \<not> P (hd ys)) \<Longrightarrow> dropWhile P (xs @ ys) = ys"
  by (induction xs) (auto simp: dropWhile_eq_self_iff)

lemma opt_group_shape: "opt_group sep cls s = (g, r) \<Longrightarrow> group_shape sep cls g \<and> s = g @ r"
  by (auto simp: opt_group_def group_shape_def list_all_iff split: list.splits if_splits
      dest: set_takeWhileD)

lemma opt_group_build:
  assumes "group_shape sep cls g" "r = [] \<or> (\<not> cls (hd r) \<and> hd r \<noteq> sep)"
  shows "opt_group sep cls (g @ r) = (g, r)"
proof (cases "g = []")
  case True
  with assms(2) show ?thesis
    by (cases r) (auto simp: opt_group_def)
next
  case False
  with assms(1) obtain q where q: "g = sep # q" "q \<noteq> []" "list_all cls q"
    by (auto simp: group_shape_def)
  have "takeWhile cls (q @ r) = q" "dropWhile cls (q @ r) = r"
    using q(3) assms(2) by (auto intro: takeWhile_all dropWhile_all)
  with q show ?thesis
    by (simp add: opt_group_def)
qed

lemma LABELRE_groups:
  assumes "LABELRE l = Some (g1, g2, g3)"
  shows "g1 \<noteq> [] \<and> list_all cat_char g1 \<and> group_shape CHR ''-'' func_char g2
      \<and> group_shape CHR ''/'' morph_char g3"
proof -
  obtain a r2 where a: "opt_group CHR ''-'' func_char (dropWhile cat_char l) = (a, r2)"
    by (cases "opt_group CHR ''-'' func_char (dropWhile cat_char l)")
  obtain b r3 where b: "opt_group CHR ''/'' morph_char r2 = (b, r3)"
    by (cases "opt_group CHR ''/'' morph_char r2")
  from assms a b have "g1 = takeWhile cat_char l" "g1 \<noteq> []" "g2 = a" "g3 = b"
    by (auto simp: LABELRE_def Let_def split: if_splits)
  moreover have "list_all cat_char (takeWhile cat_char l)"
    by (auto simp: list_all_iff dest: set_takeWhileD)
  ultimately show ?thesis
    using opt_group_shape [OF a] opt_group_shape [OF b] by simp
qed

lemma LABELRE_build:
  assumes "g1 \<noteq> []" "list_all cat_char g1" "group_shape CHR ''-'' func_char g2"
    "group_shape CHR ''/'' morph_char g3"
  shows "LABELRE (g1 @ g2 @ g3) = Some (g1, g2, g3)"
proof -
  have h3: "g3 = [] \<or> hd g3 = CHR ''/''"
    using assms(4) by (auto simp: group_shape_def)
  have h2: "g2 = [] \<or> hd g2 = CHR ''-''"
    using assms(3) by (auto simp: group_shape_def)
  have n: "g2 @ g3 = [] \<or> \<not> cat_char (hd (g2 @ g3))"
    using h2 h3 by (cases g2) (auto simp: cat_char_def)
  have 1: "takeWhile cat_char (g1 @ g2 @ g3) = g1" "dropWhile cat_char (g1 @ g2 @ g3) = g2 @ g3"
    using assms(2) n by (auto intro: takeWhile_all dropWhile_all)
  have 2: "opt_group CHR ''-'' func_char (g2 @ g3) = (g2, g3)"
    using assms(3) h3 by (intro opt_group_build) (auto simp: func_char_def)
  have "opt_group CHR ''/'' morph_char (g3 @ []) = (g3, [])"
    using assms(4) by (intro opt_group_build) auto
  then have 3: "opt_group CHR ''/'' morph_char g3 = (g3, [])"
    by simp
  show ?thesis
    using assms(1) by (simp add: LABELRE_def 1 2 3)
qed

text \<open>
  With a new component of the right shape (a category without hyphen, slash or
  whitespace; a function tag without slash or whitespace; a morphological tag without
  whitespace), the new label has the new component and the two other components of the
  old label.
\<close>

lemma new_label_components:
  assumes m: "LABELRE l = Some (g1, g2, g3)"
  shows "c \<noteq> [] \<and> list_all cat_char c \<longrightarrow>
           (\<exists>l'. new_label \<lparr>label_arg = Some c, function_arg = a2, morph_arg = a3\<rparr> (g1, g2, g3) = Inr l'
              \<and> LABELRE l' = Some (c, g2, g3))"
    and "list_all func_char f \<longrightarrow>
           (\<exists>l'. new_label \<lparr>label_arg = None, function_arg = Some f, morph_arg = a3\<rparr> (g1, g2, g3) = Inr l'
              \<and> LABELRE l' = Some (g1, if f = [] then [] else CHR ''-'' # f, g3))"
    and "list_all morph_char mo \<longrightarrow>
           (\<exists>l'. new_label \<lparr>label_arg = None, function_arg = None, morph_arg = Some mo\<rparr> (g1, g2, g3) = Inr l'
              \<and> LABELRE l' = Some (g1, g2, if mo = [] then [] else CHR ''/'' # mo))"
proof -
  note g = LABELRE_groups [OF m]
  show "c \<noteq> [] \<and> list_all cat_char c \<longrightarrow>
           (\<exists>l'. new_label \<lparr>label_arg = Some c, function_arg = a2, morph_arg = a3\<rparr> (g1, g2, g3) = Inr l'
              \<and> LABELRE l' = Some (c, g2, g3))"
    using g by (auto simp: new_label_def intro: LABELRE_build)
  have f: "group_shape CHR ''-'' func_char (if f = [] then [] else CHR ''-'' # f)" if "list_all func_char f"
    using that by (simp add: group_shape_def)
  show "list_all func_char f \<longrightarrow>
           (\<exists>l'. new_label \<lparr>label_arg = None, function_arg = Some f, morph_arg = a3\<rparr> (g1, g2, g3) = Inr l'
              \<and> LABELRE l' = Some (g1, if f = [] then [] else CHR ''-'' # f, g3))"
  proof
    assume "list_all func_char f"
    from LABELRE_build [OF _ _ f [OF this], of g1 g3] g
    show "\<exists>l'. new_label \<lparr>label_arg = None, function_arg = Some f, morph_arg = a3\<rparr> (g1, g2, g3) = Inr l'
              \<and> LABELRE l' = Some (g1, if f = [] then [] else CHR ''-'' # f, g3)"
      by (auto simp: new_label_def)
  qed
  have mo: "group_shape CHR ''/'' morph_char (if mo = [] then [] else CHR ''/'' # mo)" if "list_all morph_char mo"
    using that by (simp add: group_shape_def)
  show "list_all morph_char mo \<longrightarrow>
           (\<exists>l'. new_label \<lparr>label_arg = None, function_arg = None, morph_arg = Some mo\<rparr> (g1, g2, g3) = Inr l'
              \<and> LABELRE l' = Some (g1, g2, if mo = [] then [] else CHR ''/'' # mo))"
  proof
    assume "list_all morph_char mo"
    from LABELRE_build [OF _ _ _ mo [OF this], of g1 g2] g
    show "\<exists>l'. new_label \<lparr>label_arg = None, function_arg = None, morph_arg = Some mo\<rparr> (g1, g2, g3) = Inr l'
              \<and> LABELRE l' = Some (g1, g2, if mo = [] then [] else CHR ''/'' # mo)"
      by (auto simp: new_label_def)
  qed
qed

text \<open>
  C9. The request \<^verbatim>\<open>newlabel\<close> validates the tree it receives and returns the relabelled
  tree without validating it again (the source marks this with
  \<^verbatim>\<open>FIXME: re-factor; check label AFTER replacing it\<close>). Relabelling the noun of the
  example tree with the category \<open>XX\<close>, which is no POS tag of the grammar, returns the
  tree with the label \<open>XX\<close> and counts one relabel; the returned tree does not pass
  \<^verbatim>\<open>validate\<close>.
\<close>

theorem newlabel_not_revalidated:
  "newlabel example_grammar example_tree [0, 0, 0, 0, 0, 0, 0, 5] [0, 1]
      \<lparr>label_arg = Some ''XX'', function_arg = None, morph_arg = None\<rparr>
     = Inr (Drawn NoError
         (Node ''ROOT'' [Node ''NP'' [Node ''DT'' [Leaf 0], Node ''XX'' [Leaf 1]],
                         Node ''VP'' [Node ''VB'' [Leaf 2]]])
         [0, 0, 0, 0, 1, 0, 0, 5])
   \<and> validate example_grammar
       (Node ''ROOT'' [Node ''NP'' [Node ''DT'' [Leaf 0], Node ''XX'' [Leaf 1]],
                       Node ''VP'' [Node ''VB'' [Leaf 2]]])
     = Inl ValueError"
  by (simp add: newlabel_def new_label_def increment_def RELABEL_def validate_def
      example_grammar_def example_tree_def check_node_def LABELRE_def opt_group_def cat_char_def
      is_space_def function_ok_def leftmost_def Let_def)

section \<open>The staleness check at start\<close>

text \<open>
  C8. Whenever the rankings file of the configured sentence file is absent or not newer
  than the sentence file, \<^verbatim>\<open>initapp\<close> raises and leaves the queue as it was. When
  \<^verbatim>\<open>initapp\<close> returns without raising, the rankings file exists, is newer than the
  sentence file, and the queue is what was loaded from it. The queue is changed in no
  other way: never to the sentences in their original order.
\<close>

theorem initapp_refuses_stale:
  "((\<forall>name. SENTENCES cfg = Some name \<longrightarrow> stale fs name) \<longrightarrow>
      fst (initapp splitlines json_load cfg fs g) \<noteq> None
      \<and> QUEUE_g (snd (initapp splitlines json_load cfg fs g)) = QUEUE_g g)
   \<and> (fst (initapp splitlines json_load cfg fs g) = None \<longrightarrow>
        (\<exists>name sentfile rankingfile queue.
           SENTENCES cfg = Some name \<and> fs name = Some sentfile
           \<and> fs (rankingfilename name) = Some rankingfile
           \<and> st_mtime rankingfile > st_mtime sentfile
           \<and> json_load (text_of rankingfile) = Inr queue
           \<and> QUEUE_g (snd (initapp splitlines json_load cfg fs g)) = Some queue))
   \<and> (QUEUE_g (snd (initapp splitlines json_load cfg fs g)) \<noteq> QUEUE_g g \<longrightarrow>
        (\<exists>name rankingfile queue.
           SENTENCES cfg = Some name \<and> \<not> stale fs name
           \<and> fs (rankingfilename name) = Some rankingfile
           \<and> json_load (text_of rankingfile) = Inr queue
           \<and> QUEUE_g (snd (initapp splitlines json_load cfg fs g)) = Some queue))"
proof (intro conjI impI)
  assume "\<forall>name. SENTENCES cfg = Some name \<longrightarrow> stale fs name"
  then show "fst (initapp splitlines json_load cfg fs g) \<noteq> None"
    by (auto simp: initapp_def stale_def Let_def split: option.splits sum.splits)
next
  assume "\<forall>name. SENTENCES cfg = Some name \<longrightarrow> stale fs name"
  then show "QUEUE_g (snd (initapp splitlines json_load cfg fs g)) = QUEUE_g g"
    by (auto simp: initapp_def stale_def Let_def split: option.splits sum.splits)
next
  assume "fst (initapp splitlines json_load cfg fs g) = None"
  then show "\<exists>name sentfile rankingfile queue.
           SENTENCES cfg = Some name \<and> fs name = Some sentfile
           \<and> fs (rankingfilename name) = Some rankingfile
           \<and> st_mtime rankingfile > st_mtime sentfile
           \<and> json_load (text_of rankingfile) = Inr queue
           \<and> QUEUE_g (snd (initapp splitlines json_load cfg fs g)) = Some queue"
    by (auto simp: initapp_def Let_def split: option.splits sum.splits if_splits)
next
  assume "QUEUE_g (snd (initapp splitlines json_load cfg fs g)) \<noteq> QUEUE_g g"
  then show "\<exists>name rankingfile queue.
           SENTENCES cfg = Some name \<and> \<not> stale fs name
           \<and> fs (rankingfilename name) = Some rankingfile
           \<and> json_load (text_of rankingfile) = Inr queue
           \<and> QUEUE_g (snd (initapp splitlines json_load cfg fs g)) = Some queue"
    by (auto simp: initapp_def stale_def Let_def split: option.splits sum.splits if_splits)
qed

theorem initapp_refuses_stale_witness:
  "fst (initapp (\<lambda>s. [s]) (\<lambda>s. Inr []) example_config (example_files 10) no_globals) \<noteq> None
   \<and> QUEUE_g (snd (initapp (\<lambda>s. [s]) (\<lambda>s. Inr []) example_config (example_files 10) no_globals)) = None
   \<and> QUEUE_g (snd (initapp (\<lambda>s. [s]) (\<lambda>s. Inr []) example_config (example_files 11) no_globals)) = Some []"
proof -
  let ?run = "\<lambda>time. initapp (\<lambda>s. [s]) (\<lambda>s. Inr []) example_config (example_files time) no_globals"
  have s: "\<forall>name. SENTENCES example_config = Some name \<longrightarrow> stale (example_files 10) name"
    by (simp add: example_config_def example_files_def stale_def rankingfilename_def)
  have ok: "fst (?run 11) = None"
    by (simp add: initapp_def example_config_def example_files_def rankingfilename_def Let_def)
  from initapp_refuses_stale [of example_config "example_files 10" "\<lambda>s. [s]" "\<lambda>s. Inr []" no_globals] s
  have "fst (?run 10) \<noteq> None \<and> QUEUE_g (snd (?run 10)) = QUEUE_g no_globals"
    by blast
  moreover
  from initapp_refuses_stale [of example_config "example_files 11" "\<lambda>s. [s]" "\<lambda>s. Inr []" no_globals] ok
  have "\<exists>name sentfile rankingfile queue.
           (\<lambda>s. Inr []) (text_of rankingfile) = Inr queue
           \<and> QUEUE_g (snd (?run 11)) = Some (queue :: queue_entry list)"
    by blast
  then have "QUEUE_g (snd (?run 11)) = Some []"
    by auto
  ultimately show ?thesis
    by (simp add: no_globals_def)
qed

section \<open>First unannotated sentence\<close>

lemma firstunannotated_loop_None:
  "(firstunannotated_loop E n q = None) = (\<forall>e \<in> set q. fst e \<in> E)"
  by (induction E n q rule: firstunannotated_loop.induct) auto

lemma firstunannotated_loop_Some:
  "i < length q \<Longrightarrow> fst (q ! i) \<notin> E \<Longrightarrow> \<forall>j < i. fst (q ! j) \<in> E
    \<Longrightarrow> firstunannotated_loop E n q = Some (n + i)"
proof (induction E n q arbitrary: i rule: firstunannotated_loop.induct)
  case (1 entries n)
  then show ?case by simp
next
  case (2 entries n lineno a b q)
  show ?case
  proof (cases i)
    case 0
    with 2 show ?thesis by simp
  next
    case (Suc k)
    from 2(4) Suc have "lineno \<in> entries" by fastforce
    moreover have "firstunannotated_loop entries (n + 1) q = Some (n + 1 + k)"
      using 2 Suc \<open>lineno \<in> entries\<close> by (intro 2(1)) auto
    ultimately show ?thesis using Suc by simp
  qed
qed

lemma user_entries_iff:
  "(x \<in> user_entries db u) = (\<exists>r \<in> set db. username r = u \<and> sentno r = x)"
  by (auto simp: user_entries_def)

text \<open>
  C10. For every user \<open>u\<close> and every content \<open>db\<close> of the table of annotations,
  \<^verbatim>\<open>firstunannotated(username)\<close> returns the 1-based rank of the first queue entry whose line
  number is the \<^verbatim>\<open>sentno\<close> of no row of \<open>db\<close> with that user's name, whatever rows of other
  users there are; when every queue entry has such a row (also when the queue is empty),
  it returns 1.
\<close>

theorem firstunannotated_rank:
  "(\<forall>i < length QUEUE.
      \<not> (\<exists>r \<in> set db. username r = u \<and> sentno r = fst (QUEUE ! i))
      \<and> (\<forall>j < i. \<exists>r \<in> set db. username r = u \<and> sentno r = fst (QUEUE ! j))
      \<longrightarrow> firstunannotated db QUEUE u = i + 1)
   \<and> ((\<forall>e \<in> set QUEUE. \<exists>r \<in> set db. username r = u \<and> sentno r = fst e)
      \<longrightarrow> firstunannotated db QUEUE u = 1)"
proof (intro conjI allI impI)
  fix i
  assume "i < length QUEUE"
    and "\<not> (\<exists>r \<in> set db. username r = u \<and> sentno r = fst (QUEUE ! i))
      \<and> (\<forall>j < i. \<exists>r \<in> set db. username r = u \<and> sentno r = fst (QUEUE ! j))"
  then have "firstunannotated_loop (user_entries db u) 1 QUEUE = Some (1 + i)"
    by (intro firstunannotated_loop_Some) (simp_all add: user_entries_iff)
  then show "firstunannotated db QUEUE u = i + 1"
    by (simp add: firstunannotated_def)
next
  assume "\<forall>e \<in> set QUEUE. \<exists>r \<in> set db. username r = u \<and> sentno r = fst e"
  then have "firstunannotated_loop (user_entries db u) 1 QUEUE = None"
    by (simp add: firstunannotated_loop_None user_entries_iff)
  then show "firstunannotated db QUEUE u = 1"
    by (simp add: firstunannotated_def)
qed

text \<open>
  Line 0 is annotated by another user only, so it is the first one left for \<^verbatim>\<open>ann\<close>, at rank
  2; for \<^verbatim>\<open>bob\<close> the first one left is line 2, at rank 1; and \<^verbatim>\<open>ann\<close> gets 1 as well when
  the queue holds nothing but line 2, which is annotated.
\<close>

theorem firstunannotated_rank_witness:
  "firstunannotated
      [\<lparr>sentno = 0, username = ''bob'', tree = ''(ROOT (NN 0))''\<rparr>,
       \<lparr>sentno = 2, username = ''ann'', tree = ''(ROOT (NN 0))''\<rparr>,
       \<lparr>sentno = 1, username = ''bob'', tree = ''(ROOT (NN 0))''\<rparr>]
      [(2, 3 / 2, ''a''), (0, 1, ''b''), (1, 0, ''c'')] ''ann'' = 2
   \<and> firstunannotated
      [\<lparr>sentno = 0, username = ''bob'', tree = ''(ROOT (NN 0))''\<rparr>,
       \<lparr>sentno = 2, username = ''ann'', tree = ''(ROOT (NN 0))''\<rparr>,
       \<lparr>sentno = 1, username = ''bob'', tree = ''(ROOT (NN 0))''\<rparr>]
      [(2, 3 / 2, ''a''), (0, 1, ''b''), (1, 0, ''c'')] ''bob'' = 1
   \<and> firstunannotated
      [\<lparr>sentno = 0, username = ''bob'', tree = ''(ROOT (NN 0))''\<rparr>,
       \<lparr>sentno = 2, username = ''ann'', tree = ''(ROOT (NN 0))''\<rparr>,
       \<lparr>sentno = 1, username = ''bob'', tree = ''(ROOT (NN 0))''\<rparr>]
      [(2, 3 / 2, ''a'')] ''ann'' = 1"
proof -
  let ?db = "[\<lparr>sentno = 0, username = ''bob'', tree = ''(ROOT (NN 0))''\<rparr>,
       \<lparr>sentno = 2, username = ''ann'', tree = ''(ROOT (NN 0))''\<rparr>,
       \<lparr>sentno = 1, username = ''bob'', tree = ''(ROOT (NN 0))''\<rparr>]"
  let ?Q = "[(2, 3 / 2, ''a''), (0, 1, ''b''), (1, 0, ''c'')] :: queue_entry list"
  let ?Q1 = "[(2, 3 / 2, ''a'')] :: queue_entry list"
  have h1: "1 < length ?Q"
    by simp
  have h2: "\<not> (\<exists>r \<in> set ?db. username r = ''ann'' \<and> sentno r = fst (?Q ! 1))
      \<and> (\<forall>j < 1. \<exists>r \<in> set ?db. username r = ''ann'' \<and> sentno r = fst (?Q ! j))"
    by simp
  have h3: "0 < length ?Q"
    by simp
  have h4: "\<not> (\<exists>r \<in> set ?db. username r = ''bob'' \<and> sentno r = fst (?Q ! 0))
      \<and> (\<forall>j < 0. \<exists>r \<in> set ?db. username r = ''bob'' \<and> sentno r = fst (?Q ! j))"
    by simp
  have h5: "\<forall>e \<in> set ?Q1. \<exists>r \<in> set ?db. username r = ''ann'' \<and> sentno r = fst e"
    by simp
  from firstunannotated_rank [of ?Q ?db "''ann''"] h1 h2
  have "firstunannotated ?db ?Q ''ann'' = 1 + 1"
    by blast
  moreover from firstunannotated_rank [of ?Q ?db "''bob''"] h3 h4
  have "firstunannotated ?db ?Q ''bob'' = 0 + 1"
    by blast
  moreover from firstunannotated_rank [of ?Q1 ?db "''ann''"] h5
  have "firstunannotated ?db ?Q1 ''ann'' = 1"
    by blast
  ultimately show ?thesis
    by simp
qed
end
